theory Spec2Isabelle
  imports Main "HOL-Library.AList" "HOL-Library.Sublist"
begin

section \<open>Extraction pipeline: the model\<close>

text \<open>
  The definitions follow \<^verbatim>\<open>src/app/api/projects/[id]/documents/[docId]/extract/route.ts\<close>
  (the \<^verbatim>\<open>POST\<close> handler), the territories route (\<^verbatim>\<open>dedup\<close>) and the agent tree view
  (\<^verbatim>\<open>deduplicateAgents\<close>). A text the program reads (a document, a response of the provider, a
  parameter of the request, a row read back from the store) is a \<^typ>\<open>string\<close>, one
  \<^typ>\<open>char\<close> per code unit: the model reads texts over the 256 code units of \<^typ>\<open>char\<close>.
  A string that comes out of \<^verbatim>\<open>JSON.parse\<close> is a list of UTF-16 code units, each an
  integer.
\<close>

subsection \<open>Chunker\<close>

text \<open>\<^verbatim>\<open>const MAX_CONTENT_CHARS = 100000\<close>\<close>

definition MAX_CONTENT_CHARS :: nat where
  "MAX_CONTENT_CHARS = 100000"

text \<open>
  \<^verbatim>\<open>content.split(/\n\n+/)\<close>: the text is cut at every maximal run of two or more
  newlines. \<open>cur\<close> holds, reversed, the characters read since the last cut. A run at the
  start or the end of the text leaves an empty first or last section, as
  \<^verbatim>\<open>String.prototype.split\<close> does.
\<close>

function js_split_paragraphs_from :: "string \<Rightarrow> string \<Rightarrow> string list" where
  "js_split_paragraphs_from cur [] = [rev cur]"
| "js_split_paragraphs_from cur [c] = [rev (c # cur)]"
| "js_split_paragraphs_from cur (c # d # cs) =
     (if c = CHR 0x0A \<and> d = CHR 0x0A
      then rev cur # js_split_paragraphs_from [] (dropWhile (\<lambda>x. x = CHR 0x0A) cs)
      else js_split_paragraphs_from (c # cur) (d # cs))"
  by pat_completeness auto
termination
  by (relation "measure (\<lambda>(cur, s). length s)")
     (auto intro: le_imp_less_Suc le_SucI length_dropWhile_le)

definition js_split_paragraphs :: "string \<Rightarrow> string list" where
  "js_split_paragraphs content = js_split_paragraphs_from [] content"

text \<open>
  The packing loop:
  \<^verbatim>\<open>for (const section of sections) {
    if ((current + '\n\n' + section).length > MAX_CONTENT_CHARS && current.length > 0) {
      chunks.push(current); current = section
    } else { current = current ? current + '\n\n' + section : section }
  }
  if (current) chunks.push(current)\<close>
  The result is the list of the chunks pushed, in the order of the pushes.
\<close>

fun pack_sections :: "nat \<Rightarrow> string \<Rightarrow> string list \<Rightarrow> string list" where
  "pack_sections maxc current [] = (if current \<noteq> [] then [current] else [])"
| "pack_sections maxc current (section # sections) =
     (if length (current @ [CHR 0x0A, CHR 0x0A] @ section) > maxc \<and> length current > 0
      then current # pack_sections maxc section sections
      else pack_sections maxc
             (if current \<noteq> [] then current @ [CHR 0x0A, CHR 0x0A] @ section else section)
             sections)"

text \<open>
  \<^verbatim>\<open>if (content.length <= MAX_CONTENT_CHARS) chunks.push(content) else { ... }\<close>,
  with the budget as a parameter; the handler runs it at \<^const>\<open>MAX_CONTENT_CHARS\<close>.
\<close>

definition chunk_content :: "nat \<Rightarrow> string \<Rightarrow> string list" where
  "chunk_content maxc content =
     (if length content \<le> maxc then [content]
      else pack_sections maxc [] (js_split_paragraphs content))"

subsection \<open>JSON values and \<^verbatim>\<open>JSON.parse\<close>\<close>

text \<open>
  A string of the program is the list of its UTF-16 code units. The texts the model
  reads (the document, the response of the provider) are texts of code units below
  256, of type \<^typ>\<open>string\<close>; the strings \<^verbatim>\<open>JSON.parse\<close> returns may hold any code unit,
  since an escape \<^verbatim>\<open>\uXXXX\<close> stands for one, and are lists of integers.
\<close>

type_synonym jstring = "int list"

text \<open>The code unit of a character, as a number, and the code units of a text.\<close>

definition code :: "char \<Rightarrow> nat" where
  "code c = of_char c"

definition str :: "string \<Rightarrow> jstring" where
  "str s = map (\<lambda>c. int (code c)) s"

text \<open>
  The value \<^verbatim>\<open>JSON.parse\<close> returns. A number \<open>JNum m e\<close> stands for \<open>m * 10 ^ e\<close>, the
  exact value of its literal. An object lists its members in the order of the text;
  when a name occurs twice the last member is the one a property read returns.
\<close>

datatype json =
    JNull
  | JBool bool
  | JNum int int
  | JStr jstring
  | JArr "json list"
  | JObj "(jstring \<times> json) list"

datatype token =
    LBrace | RBrace | LBrack | RBrack | Colon | Comma
  | TStr jstring | TNum int int | TTrue | TFalse | TNull

definition is_digit :: "char \<Rightarrow> bool" where
  "is_digit c = (48 \<le> code c \<and> code c \<le> 57)"

definition digit_val :: "char \<Rightarrow> nat" where
  "digit_val c = code c - 48"

definition hex_val :: "char \<Rightarrow> nat option" where
  "hex_val c =
     (if 48 \<le> code c \<and> code c \<le> 57 then Some (code c - 48)
      else if 97 \<le> code c \<and> code c \<le> 102 then Some (code c - 87)
      else if 65 \<le> code c \<and> code c \<le> 70 then Some (code c - 55)
      else None)"

text \<open>The value of a run of decimal digits.\<close>

definition digits_val :: "string \<Rightarrow> nat" where
  "digits_val ds = foldl (\<lambda>n c. 10 * n + digit_val c) 0 ds"

text \<open>
  An escape, read after its backslash: the code unit it stands for and the number of
  characters it takes. \<^verbatim>\<open>\uXXXX\<close> is the code unit of that number.
\<close>

definition lex_escape :: "string \<Rightarrow> (int \<times> nat) option" where
  "lex_escape cs =
     (case cs of
        [] \<Rightarrow> None
      | e # r \<Rightarrow>
          if e = CHR 0x22 then Some (0x22, 1)
          else if e = CHR 0x5C then Some (0x5C, 1)
          else if e = CHR ''/'' then Some (0x2F, 1)
          else if e = CHR ''b'' then Some (0x08, 1)
          else if e = CHR ''f'' then Some (0x0C, 1)
          else if e = CHR ''n'' then Some (0x0A, 1)
          else if e = CHR ''r'' then Some (0x0D, 1)
          else if e = CHR ''t'' then Some (0x09, 1)
          else if e = CHR ''u'' then
            (case map hex_val (take 4 r) of
               [Some a, Some b, Some c, Some d] \<Rightarrow>
                 Some (4096 * int a + 256 * int b + 16 * int c + int d, 5)
             | _ \<Rightarrow> None)
          else None)"

text \<open>
  The characters of a string literal after its opening quote, up to the closing one:
  the decoded string and the text that follows. A control character, a quote that never
  closes and a bad escape are syntax errors.
\<close>

fun lex_string :: "jstring \<Rightarrow> string \<Rightarrow> (jstring \<times> string) option" where
  "lex_string acc [] = None"
| "lex_string acc (c # cs) =
     (if c = CHR 0x22 then Some (rev acc, cs)
      else if c = CHR 0x5C then
        (case lex_escape cs of
           None \<Rightarrow> None
         | Some (u, n) \<Rightarrow> lex_string (u # acc) (drop n cs))
      else if code c < 32 then None
      else lex_string (int (code c) # acc) cs)"

text \<open>
  A number literal: \<^verbatim>\<open>-? (0 | [1-9][0-9]*) (. [0-9]+)? ([eE] [+-]? [0-9]+)?\<close>, read
  part by part; each part returns what it read and the text that follows.
\<close>

definition lex_sign :: "string \<Rightarrow> bool \<times> string" where
  "lex_sign cs = (case cs of [] \<Rightarrow> (False, cs)
                  | c # r \<Rightarrow> if c = CHR ''-'' then (True, r) else (False, cs))"

definition lex_int_part :: "string \<Rightarrow> (string \<times> string) option" where
  "lex_int_part cs =
     (let ds = takeWhile is_digit cs in
      if ds = [] \<or> (length ds > 1 \<and> take 1 ds = ''0'') then None
      else Some (ds, dropWhile is_digit cs))"

definition lex_frac_part :: "string \<Rightarrow> (string \<times> string) option" where
  "lex_frac_part cs =
     (case cs of
        [] \<Rightarrow> Some ([], cs)
      | c # r \<Rightarrow>
          if c = CHR ''.'' then
            (if takeWhile is_digit r = [] then None
             else Some (takeWhile is_digit r, dropWhile is_digit r))
          else Some ([], cs))"

definition lex_exp_digits :: "bool \<Rightarrow> string \<Rightarrow> (int \<times> string) option" where
  "lex_exp_digits eneg r =
     (if takeWhile is_digit r = [] then None
      else Some ((if eneg then - 1 else 1) * int (digits_val (takeWhile is_digit r)),
                 dropWhile is_digit r))"

definition lex_exp_part :: "string \<Rightarrow> (int \<times> string) option" where
  "lex_exp_part cs =
     (case cs of
        [] \<Rightarrow> Some (0, cs)
      | c # r \<Rightarrow>
          if c = CHR ''e'' \<or> c = CHR ''E'' then
            (case r of
               [] \<Rightarrow> None
             | d # r' \<Rightarrow> if d = CHR ''-'' then lex_exp_digits True r'
                         else if d = CHR ''+'' then lex_exp_digits False r'
                         else lex_exp_digits False r)
          else Some (0, cs))"

text \<open>The mantissa, the exponent of ten and the text that follows.\<close>

definition lex_number :: "string \<Rightarrow> (int \<times> int \<times> string) option" where
  "lex_number cs =
     (case lex_sign cs of (neg, s1) \<Rightarrow>
       (case lex_int_part s1 of None \<Rightarrow> None | Some (ds, s2) \<Rightarrow>
         (case lex_frac_part s2 of None \<Rightarrow> None | Some (fs, s3) \<Rightarrow>
           (case lex_exp_part s3 of None \<Rightarrow> None | Some (e, s4) \<Rightarrow>
              Some ((if neg then - 1 else 1) * int (digits_val (ds @ fs)),
                    e - int (length fs), s4)))))"

lemma lex_string_shorter: "lex_string acc cs = Some (s, rest) \<Longrightarrow> length rest < Suc (length cs)"
  by (induction acc cs rule: lex_string.induct)
     (fastforce split: if_splits option.splits)+

lemma lex_sign_shorter: "lex_sign cs = (neg, rest) \<Longrightarrow> length rest \<le> length cs"
  by (auto simp: lex_sign_def split: list.splits if_splits)

lemma lex_int_part_shorter: "lex_int_part cs = Some (ds, rest) \<Longrightarrow> length rest < length cs"
proof -
  assume a: "lex_int_part cs = Some (ds, rest)"
  have "length (takeWhile is_digit cs) + length (dropWhile is_digit cs) = length cs"
    by (metis length_append takeWhile_dropWhile_id)
  moreover from a have "takeWhile is_digit cs \<noteq> []" and "rest = dropWhile is_digit cs"
    by (auto simp: lex_int_part_def Let_def split: if_splits)
  ultimately show ?thesis by (cases "takeWhile is_digit cs") auto
qed

lemma lex_frac_part_shorter: "lex_frac_part cs = Some (fs, rest) \<Longrightarrow> length rest \<le> length cs"
  by (auto simp: lex_frac_part_def length_dropWhile_le le_SucI split: list.splits if_splits)

lemma lex_exp_digits_shorter: "lex_exp_digits b cs = Some (e, rest) \<Longrightarrow> length rest \<le> length cs"
  by (auto simp: lex_exp_digits_def length_dropWhile_le split: if_splits)

lemma lex_exp_part_shorter: "lex_exp_part cs = Some (e, rest) \<Longrightarrow> length rest \<le> length cs"
  by (auto simp: lex_exp_part_def split: list.splits if_splits
      dest!: lex_exp_digits_shorter)

lemma lex_number_shorter: "lex_number cs = Some (m, e, rest) \<Longrightarrow> length rest < length cs"
  by (auto simp: lex_number_def split: prod.splits option.splits
      dest!: lex_sign_shorter lex_int_part_shorter lex_frac_part_shorter lex_exp_part_shorter)

text \<open>
  The first token of a text that is not empty, and the text after it; white space
  (space, tab, line feed, carriage return) is read as no token. \<open>None\<close> is a syntax
  error.
\<close>

definition starts_with :: "string \<Rightarrow> string \<Rightarrow> bool" where
  "starts_with p s = (take (length p) s = p)"

definition next_token :: "char \<Rightarrow> string \<Rightarrow> (token option \<times> string) option" where
  "next_token c cs =
     (if c = CHR '' '' \<or> c = CHR 0x09 \<or> c = CHR 0x0A \<or> c = CHR 0x0D then Some (None, cs)
      else if c = CHR ''{'' then Some (Some LBrace, cs)
      else if c = CHR ''}'' then Some (Some RBrace, cs)
      else if c = CHR ''['' then Some (Some LBrack, cs)
      else if c = CHR '']'' then Some (Some RBrack, cs)
      else if c = CHR '':'' then Some (Some Colon, cs)
      else if c = CHR '','' then Some (Some Comma, cs)
      else if c = CHR 0x22 then
        (case lex_string [] cs of
           None \<Rightarrow> None
         | Some (s, rest) \<Rightarrow> Some (Some (TStr s), rest))
      else if c = CHR ''-'' \<or> is_digit c then
        (case lex_number (c # cs) of
           None \<Rightarrow> None
         | Some (m, e, rest) \<Rightarrow> Some (Some (TNum m e), rest))
      else if starts_with ''true'' (c # cs) then Some (Some TTrue, drop 3 cs)
      else if starts_with ''false'' (c # cs) then Some (Some TFalse, drop 4 cs)
      else if starts_with ''null'' (c # cs) then Some (Some TNull, drop 3 cs)
      else None)"

lemma next_token_cases:
  "next_token c cs = Some (t, rest) \<Longrightarrow>
     (\<exists>s. lex_string [] cs = Some (s, rest)) \<or> (\<exists>m e. lex_number (c # cs) = Some (m, e, rest))
     \<or> rest = cs \<or> rest = drop 3 cs \<or> rest = drop 4 cs"
  unfolding next_token_def by (auto split: if_splits option.splits prod.splits)

lemma next_token_shorter:
  assumes "next_token c cs = Some (t, rest)"
  shows "length rest < Suc (length cs)"
  using next_token_cases [OF assms]
proof (elim disjE exE)
  fix s assume "lex_string [] cs = Some (s, rest)"
  then show ?thesis by (rule lex_string_shorter)
next
  fix m e assume "lex_number (c # cs) = Some (m, e, rest)"
  then have "length rest < length (c # cs)" by (rule lex_number_shorter)
  then show ?thesis by simp
qed simp_all

text \<open>The tokens of a text; \<open>None\<close> is a syntax error.\<close>

function lex :: "string \<Rightarrow> token list option" where
  "lex [] = Some []"
| "lex (c # cs) =
     (case next_token c cs of
        None \<Rightarrow> None
      | Some (t, rest) \<Rightarrow>
          (case lex rest of
             None \<Rightarrow> None
           | Some ts \<Rightarrow> Some (case t of None \<Rightarrow> ts | Some tok \<Rightarrow> tok # ts)))"
  by pat_completeness auto
termination
  by (relation "measure length") (auto dest: next_token_shorter)

text \<open>
  The parser proper is a pushdown automaton over the tokens. A frame of the stack is an
  array or an object under construction (its elements or members so far, last first),
  or an object whose next member has its name and colon read.
\<close>

datatype frame =
    FArr "json list"
  | FObj "(jstring \<times> json) list"
  | FKey "(jstring \<times> json) list" jstring

datatype pmode =
    MValue
  | MFirstElem
  | MFirstKey
  | MKey
  | MColon
  | MAfter
  | MEnd json

text \<open>A finished value goes into the frame on top of the stack, or is the result.\<close>

fun put_value :: "json \<Rightarrow> frame list \<Rightarrow> (pmode \<times> frame list) option" where
  "put_value v [] = Some (MEnd v, [])"
| "put_value v (FArr vs # st) = Some (MAfter, FArr (v # vs) # st)"
| "put_value v (FKey ps k # st) = Some (MAfter, FObj ((k, v) # ps) # st)"
| "put_value v (FObj ps # st) = None"

text \<open>A token where a value must start.\<close>

fun start_value :: "token \<Rightarrow> frame list \<Rightarrow> (pmode \<times> frame list) option" where
  "start_value (TStr s) st = put_value (JStr s) st"
| "start_value (TNum m e) st = put_value (JNum m e) st"
| "start_value TTrue st = put_value (JBool True) st"
| "start_value TFalse st = put_value (JBool False) st"
| "start_value TNull st = put_value JNull st"
| "start_value LBrack st = Some (MFirstElem, FArr [] # st)"
| "start_value LBrace st = Some (MFirstKey, FObj [] # st)"
| "start_value _ st = None"

fun parse_step :: "pmode \<times> frame list \<Rightarrow> token \<Rightarrow> (pmode \<times> frame list) option" where
  "parse_step (MValue, st) tok = start_value tok st"
| "parse_step (MFirstElem, FArr vs # st) RBrack = put_value (JArr (rev vs)) st"
| "parse_step (MFirstElem, st) tok = start_value tok st"
| "parse_step (MFirstKey, FObj ps # st) RBrace = put_value (JObj (rev ps)) st"
| "parse_step (MFirstKey, FObj ps # st) (TStr k) = Some (MColon, FKey ps k # st)"
| "parse_step (MKey, FObj ps # st) (TStr k) = Some (MColon, FKey ps k # st)"
| "parse_step (MColon, st) Colon = Some (MValue, st)"
| "parse_step (MAfter, FArr vs # st) Comma = Some (MValue, FArr vs # st)"
| "parse_step (MAfter, FArr vs # st) RBrack = put_value (JArr (rev vs)) st"
| "parse_step (MAfter, FObj ps # st) Comma = Some (MKey, FObj ps # st)"
| "parse_step (MAfter, FObj ps # st) RBrace = put_value (JObj (rev ps)) st"
| "parse_step _ _ = None"

fun parse_tokens :: "pmode \<times> frame list \<Rightarrow> token list \<Rightarrow> json option" where
  "parse_tokens (MEnd v, []) [] = Some v"
| "parse_tokens state [] = None"
| "parse_tokens state (tok # toks) =
     (case parse_step state tok of None \<Rightarrow> None | Some state' \<Rightarrow> parse_tokens state' toks)"

text \<open>\<^verbatim>\<open>JSON.parse(text)\<close>; \<open>None\<close> is the \<^verbatim>\<open>SyntaxError\<close> it throws.\<close>

definition JSON_parse :: "string \<Rightarrow> json option" where
  "JSON_parse text = (case lex text of None \<Rightarrow> None | Some toks \<Rightarrow> parse_tokens (MValue, []) toks)"

subsection \<open>Provider calls and the chunk loop\<close>

text \<open>What a statement of the handler can throw; every one is caught by a \<^verbatim>\<open>catch\<close>.\<close>

datatype js_error = Error | ProviderError | SyntaxError | TypeError | PrismaClientValidationError

text \<open>\<^verbatim>\<open>const SYSTEM_PROMPT = `...`\<close>\<close>

definition SYSTEM_PROMPT :: string where
  \<open>SYSTEM_PROMPT =
     ''You are a knowledge extraction engine analysing organisational documents.\<newline>'' @
     ''Extract ALL entities and relationships. Be thorough but precise.\<newline>'' @
     ''\<newline>'' @
     ''Return valid JSON only:\<newline>'' @
     ''{\<newline>'' @
     ''  "entities": [{\<newline>'' @
     ''    "name": "...",\<newline>'' @
     ''    "type": "person|team|organisation|client|service|strategy|goal|financial|process|system|location|context|culture",\<newline>'' @
     ''    "subtype": "optional specific type",\<newline>'' @
     ''    "description": "brief description",\<newline>'' @
     ''    "metadata": { "role": "...", "salary": "...", etc }\<newline>'' @
     ''  }],\<newline>'' @
     ''  "relationships": [{\<newline>'' @
     ''    "source": "entity name (exact match)",\<newline>'' @
     ''    "target": "entity name (exact match)",  \<newline>'' @
     ''    "label": "verb phrase describing relationship",\<newline>'' @
     ''    "weight": 1-5\<newline>'' @
     ''  }],\<newline>'' @
     ''  "insights": [{\<newline>'' @
     ''    "type": "inconsistency|gap|risk|opportunity|observation|culture",\<newline>'' @
     ''    "severity": "info|warning|critical",\<newline>'' @
     ''    "text": "description of the finding"\<newline>'' @
     ''  }],\<newline>'' @
     ''  "frontier_hints": [{\<newline>'' @
     ''    "name": "territory name",\<newline>'' @
     ''    "hint": "what might be found here",\<newline>'' @
     ''    "risk": "low|medium|high",\<newline>'' @
     ''    "value": "low|medium|high|very_high",\<newline>'' @
     ''    "access_needed": "what would be needed to explore this"\<newline>'' @
     ''  }]\<newline>'' @
     ''}''\<close>

text \<open>The decimal digits of a number, as a template literal prints it.\<close>

function show_nat :: "nat \<Rightarrow> string" where
  "show_nat n = (if n < 10 then [char_of (48 + n)]
                 else show_nat (n div 10) @ [char_of (48 + n mod 10)])"
  by pat_completeness auto
termination
  by (relation "measure id") auto

declare show_nat.simps [simp del]

text \<open>
  The prompt of chunk \<open>i\<close> (counted from 0) of \<open>n\<close>:
  \<^verbatim>\<open>const chunkLabel = chunks.length > 1 ? ` (Part ${i + 1} of ${chunks.length})` : ''\<close>
  \<^verbatim>\<open>const prompt = `${SYSTEM_PROMPT}\n\nDocument${chunkLabel}:\n${chunks[i]}`\<close>
\<close>

definition make_prompt :: "nat \<Rightarrow> nat \<Rightarrow> string \<Rightarrow> string" where
  "make_prompt n i chunk =
     (let chunkLabel = (if n > 1 then '' (Part '' @ show_nat (i + 1) @ '' of '' @ show_nat n @ '')''
                        else [])
      in SYSTEM_PROMPT @ ''\<newline>\<newline>Document'' @ chunkLabel @ '':\<newline>'' @ chunk)"

text \<open>Truth of a \<^verbatim>\<open>string | null | undefined\<close>: a string that is not empty.\<close>

definition truthy_string :: "string option \<Rightarrow> bool" where
  "truthy_string v = (case v of None \<Rightarrow> False | Some s \<Rightarrow> s \<noteq> [])"

text \<open>
  The settings row of the project, and \<^verbatim>\<open>callAI\<close>. The remote service (the hosted
  API or the local server, whichever the settings name) is a parameter: \<open>service i p\<close>
  is the text it answers to the \<open>i\<close>-th request of the pass, whose prompt is \<open>p\<close>, or the
  error the request ends with.
\<close>

record Settings =
  s_projectId :: string
  s_aiProvider :: string
  s_claudeApiKey :: "string option"
  s_ollamaUrl :: string
  s_ollamaModel :: string
  s_autoExtract :: bool
  s_extractionDepth :: string

definition callAI ::
  "Settings \<Rightarrow> (nat \<Rightarrow> string \<Rightarrow> js_error + string) \<Rightarrow> nat \<Rightarrow> string
   \<Rightarrow> js_error + (string \<times> string)" where
  "callAI settings service i prompt =
     (if s_aiProvider settings = ''claude'' then
        (case service i prompt of
           Inl err \<Rightarrow> Inl err
         | Inr text \<Rightarrow> Inr (text, ''claude-sonnet-4-20250514''))
      else if s_aiProvider settings = ''ollama'' then
        (case service i prompt of
           Inl err \<Rightarrow> Inl err
         | Inr text \<Rightarrow> Inr (text, ''ollama-'' @ s_ollamaModel settings))
      else Inl Error)"

text \<open>
  \<^verbatim>\<open>result.text.match(/\{[\s\S]*\}/)\<close>: the match starts at the first \<^verbatim>\<open>{\<close> and, the star
  being greedy, ends at the last \<^verbatim>\<open>}\<close> of the text; there is none when no \<^verbatim>\<open>}\<close> follows
  the first \<^verbatim>\<open>{\<close>.
\<close>

definition json_match :: "string \<Rightarrow> string option" where
  "json_match text =
     (let from_brace = dropWhile (\<lambda>c. c \<noteq> CHR ''{'') text;
          upto = rev (dropWhile (\<lambda>c. c \<noteq> CHR ''}'') (rev from_brace))
      in if upto = [] then None else Some upto)"

text \<open>
  A number literal is zero as a double when it is zero or rounds to zero: when its
  magnitude is at most \<open>2 ^ - 1075\<close>, half the least positive double.
\<close>

definition rounds_to_zero :: "int \<Rightarrow> int \<Rightarrow> bool" where
  "rounds_to_zero m e = (m = 0 \<or> (e < 0 \<and> \<bar>m\<bar> * 2 ^ 1075 \<le> 10 ^ nat (- e)))"

text \<open>Truth of a value in a condition; \<open>None\<close> is \<^verbatim>\<open>undefined\<close>.\<close>

fun js_truthy :: "json option \<Rightarrow> bool" where
  "js_truthy None = False"
| "js_truthy (Some JNull) = False"
| "js_truthy (Some (JBool b)) = b"
| "js_truthy (Some (JNum m e)) = (\<not> rounds_to_zero m e)"
| "js_truthy (Some (JStr s)) = (s \<noteq> [])"
| "js_truthy (Some (JArr vs)) = True"
| "js_truthy (Some (JObj ps)) = True"

text \<open>
  A read \<^verbatim>\<open>value.name\<close> of one of the member names of the response (none of them is a
  property of a prototype): the member of an object, the last one of that name;
  \<^verbatim>\<open>undefined\<close> on any other value but \<^verbatim>\<open>null\<close>, on which the read throws.
\<close>

fun js_member :: "json \<Rightarrow> jstring \<Rightarrow> js_error + json option" where
  "js_member JNull name = Inl TypeError"
| "js_member (JObj ps) name = Inr (map_of (rev ps) name)"
| "js_member v name = Inr None"

text \<open>
  The values \<^verbatim>\<open>...value\<close> spreads into a call: the elements of an array, the code
  points of a string (a high surrogate and the low surrogate after it are one code
  point); any other value is not iterable.
\<close>

fun code_points :: "jstring \<Rightarrow> jstring list" where
  "code_points [] = []"
| "code_points [c] = [[c]]"
| "code_points (c # d # cs) =
     (if 0xD800 \<le> c \<and> c \<le> 0xDBFF \<and> 0xDC00 \<le> d \<and> d \<le> 0xDFFF
      then [c, d] # code_points cs
      else [c] # code_points (d # cs))"

fun js_spread :: "json \<Rightarrow> js_error + json list" where
  "js_spread (JArr vs) = Inr vs"
| "js_spread (JStr s) = Inr (map JStr (code_points s))"
| "js_spread v = Inl TypeError"

text \<open>\<^verbatim>\<open>if (parsed.f) all.push(...parsed.f)\<close>: the array after the statement, or what it throws.\<close>

definition push_field :: "json \<Rightarrow> jstring \<Rightarrow> json list \<Rightarrow> js_error + json list" where
  "push_field parsed name arr =
     (case js_member parsed name of
        Inl err \<Rightarrow> Inl err
      | Inr None \<Rightarrow> Inr arr
      | Inr (Some v) \<Rightarrow>
          if js_truthy (Some v) then
            (case js_spread v of Inl err \<Rightarrow> Inl err | Inr vs \<Rightarrow> Inr (arr @ vs))
          else Inr arr)"

text \<open>The four arrays the loop fills.\<close>

record Merged =
  allEntities :: "json list"
  allRelationships :: "json list"
  allInsights :: "json list"
  allFrontierHints :: "json list"

text \<open>
  The \<^verbatim>\<open>try { ... } catch (parseErr) { console.error(...) }\<close> of the loop body: the
  arrays after it. A statement that throws ends the block; what the statements before
  it pushed stays.
\<close>

definition try_merge :: "Merged \<Rightarrow> string \<Rightarrow> Merged" where
  "try_merge acc text =
     (case json_match text of
        None \<Rightarrow> acc
      | Some jsonMatch \<Rightarrow>
          (case JSON_parse jsonMatch of
             None \<Rightarrow> acc
           | Some parsed \<Rightarrow>
               (case push_field parsed (str ''entities'') (allEntities acc) of
                  Inl err \<Rightarrow> acc
                | Inr es \<Rightarrow>
                    (let acc1 = acc\<lparr>allEntities := es\<rparr> in
                     case push_field parsed (str ''relationships'') (allRelationships acc1) of
                       Inl err \<Rightarrow> acc1
                     | Inr rs \<Rightarrow>
                         (let acc2 = acc1\<lparr>allRelationships := rs\<rparr> in
                          case push_field parsed (str ''insights'') (allInsights acc2) of
                            Inl err \<Rightarrow> acc2
                          | Inr ins \<Rightarrow>
                              (let acc3 = acc2\<lparr>allInsights := ins\<rparr> in
                               case push_field parsed (str ''frontier_hints'') (allFrontierHints acc3) of
                                 Inl err \<Rightarrow> acc3
                               | Inr hs \<Rightarrow> acc3\<lparr>allFrontierHints := hs\<rparr>))))))"

text \<open>
  The loop \<^verbatim>\<open>for (let i = 0; i < chunks.length; i++)\<close> from chunk \<open>i\<close> on, \<open>n\<close> being
  \<^verbatim>\<open>chunks.length\<close>. \<^verbatim>\<open>await callAI(prompt)\<close> stands outside the \<^verbatim>\<open>try\<close>: what it throws
  leaves the loop.
\<close>

fun extract_chunks ::
  "(nat \<Rightarrow> string \<Rightarrow> js_error + (string \<times> string)) \<Rightarrow> nat \<Rightarrow> nat \<Rightarrow> string list
   \<Rightarrow> Merged \<Rightarrow> string \<Rightarrow> js_error + (Merged \<times> string)" where
  "extract_chunks call n i [] acc extractorName = Inr (acc, extractorName)"
| "extract_chunks call n i (chunk # chunks) acc extractorName =
     (case call i (make_prompt n i chunk) of
        Inl err \<Rightarrow> Inl err
      | Inr (text, model) \<Rightarrow> extract_chunks call n (Suc i) chunks (try_merge acc text) model)"

definition no_results :: Merged where
  "no_results = \<lparr>allEntities = [], allRelationships = [], allInsights = [], allFrontierHints = []\<rparr>"

text \<open>
  The first balanced \<^verbatim>\<open>{...}\<close> block of a text, found by brace matching, as the
  specification words it: from a \<^verbatim>\<open>{\<close>, the text up to the \<^verbatim>\<open>}\<close> that closes it; the
  first \<^verbatim>\<open>{\<close> from which the braces balance is taken.
\<close>

fun close_block :: "nat \<Rightarrow> string \<Rightarrow> string \<Rightarrow> string option" where
  "close_block depth acc [] = None"
| "close_block depth acc (c # cs) =
     (if c = CHR ''{'' then close_block (Suc depth) (c # acc) cs
      else if c = CHR ''}'' then
        (case depth of 0 \<Rightarrow> Some (rev (c # acc)) | Suc d \<Rightarrow> close_block d (c # acc) cs)
      else close_block depth (c # acc) cs)"

fun spec_first_balanced_block :: "string \<Rightarrow> string option" where
  "spec_first_balanced_block [] = None"
| "spec_first_balanced_block (c # cs) =
     (if c = CHR ''{'' then
        (case close_block 0 [c] cs of
           Some block \<Rightarrow> Some block
         | None \<Rightarrow> spec_first_balanced_block cs)
      else spec_first_balanced_block cs)"

subsection \<open>The extraction result and its reading from the merged arrays\<close>

text \<open>
  \<^verbatim>\<open>interface ExtractionResult\<close>. The handler declares the parsed value to be of this
  type and checks nothing at run time; the materializer below is modelled on the values
  that inhabit the interface. A weight is modelled as an integer.
\<close>

record EntityData =
  ed_name :: jstring
  ed_type :: jstring
  ed_subtype :: "jstring option"
  ed_description :: "jstring option"
  ed_metadata :: "json option"

record RelationshipData =
  rd_source :: jstring
  rd_target :: jstring
  rd_label :: jstring
  rd_weight :: int

record InsightData =
  in_type :: jstring
  in_severity :: jstring
  in_text :: jstring

record FrontierHintData =
  fh_name :: jstring
  fh_hint :: jstring
  fh_risk :: jstring
  fh_value :: jstring
  fh_access_needed :: jstring

record ExtractionResult =
  entities :: "EntityData list"
  relationships :: "RelationshipData list"
  insights :: "InsightData list"
  frontier_hints :: "FrontierHintData list"

text \<open>
  The reading of a JSON value at a type of the interface; \<open>None\<close> when the value does not
  inhabit it. An optional member may be absent or \<^verbatim>\<open>null\<close>.
\<close>

definition member :: "(jstring \<times> json) list \<Rightarrow> jstring \<Rightarrow> json option" where
  "member ps name = map_of (rev ps) name"

definition as_string :: "json option \<Rightarrow> jstring option" where
  "as_string v = (case v of Some (JStr s) \<Rightarrow> Some s | _ \<Rightarrow> None)"

definition as_optional_string :: "json option \<Rightarrow> jstring option option" where
  "as_optional_string v =
     (case v of None \<Rightarrow> Some None | Some JNull \<Rightarrow> Some None | Some (JStr s) \<Rightarrow> Some (Some s)
      | _ \<Rightarrow> None)"

definition as_optional_object :: "json option \<Rightarrow> json option option" where
  "as_optional_object v =
     (case v of None \<Rightarrow> Some None | Some JNull \<Rightarrow> Some None
      | Some (JObj ps) \<Rightarrow> Some (Some (JObj ps)) | _ \<Rightarrow> None)"

definition as_integer :: "json option \<Rightarrow> int option" where
  "as_integer v =
     (case v of
        Some (JNum m e) \<Rightarrow>
          if e \<ge> 0 then Some (m * 10 ^ nat e)
          else if m mod 10 ^ nat (- e) = 0 then Some (m div 10 ^ nat (- e)) else None
      | _ \<Rightarrow> None)"

definition as_entity :: "json \<Rightarrow> EntityData option" where
  "as_entity v =
     (case v of
        JObj ps \<Rightarrow>
          (case (as_string (member ps (str ''name'')), as_string (member ps (str ''type'')),
                 as_optional_string (member ps (str ''subtype'')),
                 as_optional_string (member ps (str ''description'')),
                 as_optional_object (member ps (str ''metadata''))) of
             (Some n, Some t, Some st, Some d, Some md) \<Rightarrow>
               Some \<lparr>ed_name = n, ed_type = t, ed_subtype = st, ed_description = d,
                     ed_metadata = md\<rparr>
           | _ \<Rightarrow> None)
      | _ \<Rightarrow> None)"

definition as_relationship :: "json \<Rightarrow> RelationshipData option" where
  "as_relationship v =
     (case v of
        JObj ps \<Rightarrow>
          (case (as_string (member ps (str ''source'')), as_string (member ps (str ''target'')),
                 as_string (member ps (str ''label'')), as_integer (member ps (str ''weight''))) of
             (Some s, Some t, Some l, Some w) \<Rightarrow>
               Some \<lparr>rd_source = s, rd_target = t, rd_label = l, rd_weight = w\<rparr>
           | _ \<Rightarrow> None)
      | _ \<Rightarrow> None)"

definition as_insight :: "json \<Rightarrow> InsightData option" where
  "as_insight v =
     (case v of
        JObj ps \<Rightarrow>
          (case (as_string (member ps (str ''type'')), as_string (member ps (str ''severity'')),
                 as_string (member ps (str ''text''))) of
             (Some t, Some s, Some x) \<Rightarrow> Some \<lparr>in_type = t, in_severity = s, in_text = x\<rparr>
           | _ \<Rightarrow> None)
      | _ \<Rightarrow> None)"

definition as_frontier_hint :: "json \<Rightarrow> FrontierHintData option" where
  "as_frontier_hint v =
     (case v of
        JObj ps \<Rightarrow>
          (case (as_string (member ps (str ''name'')), as_string (member ps (str ''hint'')),
                 as_string (member ps (str ''risk'')), as_string (member ps (str ''value'')),
                 as_string (member ps (str ''access_needed''))) of
             (Some n, Some h, Some r, Some va, Some a) \<Rightarrow>
               Some \<lparr>fh_name = n, fh_hint = h, fh_risk = r, fh_value = va, fh_access_needed = a\<rparr>
           | _ \<Rightarrow> None)
      | _ \<Rightarrow> None)"

text \<open>
  \<^verbatim>\<open>const mergedResult: ExtractionResult = { entities: allEntities, ... }\<close>, defined
  when every merged element inhabits its type.
\<close>

definition as_ExtractionResult :: "Merged \<Rightarrow> ExtractionResult option" where
  "as_ExtractionResult merged =
     (case (those (map as_entity (allEntities merged)),
            those (map as_relationship (allRelationships merged)),
            those (map as_insight (allInsights merged)),
            those (map as_frontier_hint (allFrontierHints merged))) of
        (Some es, Some rs, Some ins, Some hs) \<Rightarrow>
          Some \<lparr>entities = es, relationships = rs, insights = ins, frontier_hints = hs\<rparr>
      | _ \<Rightarrow> None)"

subsection \<open>The store\<close>

text \<open>
  The rows the handler reads and writes. A project and a document are named by the
  strings of the request; the id the store gives a row it creates is a number, taken
  from a counter, so that no two rows share an id. Columns the handler never sets
  (defaults of the schema) are left out.
\<close>

record DocumentRow =
  doc_id :: string
  doc_projectId :: string
  doc_filename :: string
  doc_content :: "string option"
  doc_status :: string
  doc_entityCount :: nat
  doc_edgeCount :: nat

record EntityRow =
  en_id :: nat
  en_projectId :: string
  en_documentId :: string
  en_name :: jstring
  en_type :: jstring
  en_subtype :: "jstring option"
  en_description :: "jstring option"
  en_metadata :: json
  en_extractedBy :: string
  en_territoryId :: "nat option"

record EdgeRow =
  eg_id :: nat
  eg_projectId :: string
  eg_sourceId :: nat
  eg_targetId :: nat
  eg_label :: jstring
  eg_weight :: int
  eg_documentId :: string

record InsightRow =
  ins_id :: nat
  ins_projectId :: string
  ins_type :: jstring
  ins_severity :: jstring
  ins_text :: jstring

record TerritoryRow =
  tr_id :: nat
  tr_projectId :: string
  tr_name :: jstring
  tr_type :: jstring
  tr_status :: string
  tr_description :: "jstring option"
  tr_hint :: "jstring option"
  tr_risk :: "jstring option"
  tr_value :: "jstring option"
  tr_accessNeeded :: "jstring option"

record AgentRow =
  ag_id :: nat
  ag_projectId :: string
  ag_name :: jstring
  ag_role :: string
  ag_status :: string
  ag_domain :: "jstring option"
  ag_description :: "jstring option"
  ag_entitiesManaged :: nat
  ag_parentAgentId :: "nat option"

record Store =
  db_document :: "DocumentRow list"
  db_settings :: "Settings list"
  db_entity :: "EntityRow list"
  db_edge :: "EdgeRow list"
  db_insight :: "InsightRow list"
  db_territory :: "TerritoryRow list"
  db_agent :: "AgentRow list"
  db_next_id :: nat

subsection \<open>Plain objects used as maps\<close>

text \<open>
  \<^verbatim>\<open>entityMap\<close> and \<^verbatim>\<open>territoriesMap\<close> are object literals \<^verbatim>\<open>{}\<close>: their own properties
  are an association list in the order of creation, and a read of a name they do not
  own falls through to \<^verbatim>\<open>Object.prototype\<close>, whose property names are these.
\<close>

definition Object_prototype_names :: "jstring list" where
  "Object_prototype_names =
     map str
       [''constructor'', ''__defineGetter__'', ''__defineSetter__'', ''hasOwnProperty'',
        ''__lookupGetter__'', ''__lookupSetter__'', ''isPrototypeOf'', ''propertyIsEnumerable'',
        ''toString'', ''valueOf'', ''__proto__'', ''toLocaleString'']"

text \<open>
  What \<^verbatim>\<open>obj[name]\<close> reads: a value the object owns, a value inherited from the
  prototype (a function, or the prototype itself: truthy, and neither an id nor an
  array), or \<^verbatim>\<open>undefined\<close>.
\<close>

datatype 'v property = Own 'v | Inherited | Undefined

definition obj_get :: "(jstring \<times> 'v) list \<Rightarrow> jstring \<Rightarrow> 'v property" where
  "obj_get obj name =
     (case map_of obj name of
        Some v \<Rightarrow> Own v
      | None \<Rightarrow> if name \<in> set Object_prototype_names then Inherited else Undefined)"

text \<open>
  \<^verbatim>\<open>entityMap[name] = id\<close>: the assignment creates or changes an own property, but for
  the name \<^verbatim>\<open>__proto__\<close>, whose setter ignores a value that is not an object.
\<close>

definition obj_set_id :: "jstring \<Rightarrow> 'v \<Rightarrow> (jstring \<times> 'v) list \<Rightarrow> (jstring \<times> 'v) list" where
  "obj_set_id name v obj = (if name = str ''__proto__'' then obj else AList.update name v obj)"

text \<open>
  \<^verbatim>\<open>Object.entries(obj)\<close>: the own properties, those whose name is an array index
  (a canonical numeral below \<open>2^32 - 1\<close>) first, in ascending order, then the others in
  the order of creation.
\<close>

definition index_val :: "jstring \<Rightarrow> int" where
  "index_val s = foldl (\<lambda>n u. 10 * n + (u - 48)) 0 s"

definition is_array_index :: "jstring \<Rightarrow> bool" where
  "is_array_index s =
     (s \<noteq> [] \<and> list_all (\<lambda>u. 48 \<le> u \<and> u \<le> 57) s \<and> (s = [48] \<or> take 1 s \<noteq> [48])
      \<and> index_val s < 4294967295)"

definition Object_entries :: "(jstring \<times> 'v) list \<Rightarrow> (jstring \<times> 'v) list" where
  "Object_entries obj =
     sort_key (\<lambda>p. index_val (fst p)) (filter (\<lambda>p. is_array_index (fst p)) obj)
     @ filter (\<lambda>p. \<not> is_array_index (fst p)) obj"

subsection \<open>Materialization\<close>

text \<open>
  Every step takes the store and returns it changed, with what the step produced or
  the error it threw: a row created before a throw stays in the store.
\<close>

text \<open>\<^verbatim>\<open>x || null\<close> on an optional string: an empty string is falsy.\<close>

definition or_null :: "jstring option \<Rightarrow> jstring option" where
  "or_null v = (case v of None \<Rightarrow> None | Some s \<Rightarrow> if s = [] then None else Some s)"

text \<open>
  The loop \<^verbatim>\<open>for (const entityData of extractionResult.entities)\<close>: one
  \<^verbatim>\<open>prisma.entity.create\<close> per element, then \<^verbatim>\<open>entityMap[entityData.name] = entity.id\<close>
  and \<^verbatim>\<open>createdEntities.push(entity)\<close>.
\<close>

fun create_entities ::
  "string \<Rightarrow> string \<Rightarrow> string \<Rightarrow> EntityData list \<Rightarrow> Store \<Rightarrow> (jstring \<times> nat) list \<Rightarrow> EntityRow list
   \<Rightarrow> Store \<times> (jstring \<times> nat) list \<times> EntityRow list" where
  "create_entities projectId documentId extractorName [] store entityMap createdEntities =
     (store, entityMap, createdEntities)"
| "create_entities projectId documentId extractorName (entityData # rest) store entityMap
       createdEntities =
     (let entity = \<lparr>en_id = db_next_id store, en_projectId = projectId,
                     en_documentId = documentId, en_name = ed_name entityData,
                     en_type = ed_type entityData, en_subtype = or_null (ed_subtype entityData),
                     en_description = or_null (ed_description entityData),
                     en_metadata = (case ed_metadata entityData of None \<Rightarrow> JObj [] | Some m \<Rightarrow> m),
                     en_extractedBy = extractorName, en_territoryId = None\<rparr>;
          store' = store\<lparr>db_entity := db_entity store @ [entity],
                         db_next_id := Suc (db_next_id store)\<rparr>
      in create_entities projectId documentId extractorName rest store'
           (obj_set_id (ed_name entityData) (en_id entity) entityMap)
           (createdEntities @ [entity]))"

text \<open>
  The loop over the relationships. \<^verbatim>\<open>if (sourceId && targetId)\<close> holds when neither
  read is \<^verbatim>\<open>undefined\<close> (an id is a string that is not empty); \<^verbatim>\<open>prisma.edge.create\<close>
  then stores the edge when both are ids, and rejects an inherited value.
  \<^verbatim>\<open>relData.weight || 1\<close> is 1 for the weight 0.
\<close>

fun create_edges ::
  "string \<Rightarrow> string \<Rightarrow> (jstring \<times> nat) list \<Rightarrow> RelationshipData list \<Rightarrow> Store \<Rightarrow> EdgeRow list
   \<Rightarrow> Store \<times> (js_error + EdgeRow list)" where
  "create_edges projectId documentId entityMap [] store createdEdges = (store, Inr createdEdges)"
| "create_edges projectId documentId entityMap (relData # rest) store createdEdges =
     (case (obj_get entityMap (rd_source relData), obj_get entityMap (rd_target relData)) of
        (Undefined, _) \<Rightarrow> create_edges projectId documentId entityMap rest store createdEdges
      | (_, Undefined) \<Rightarrow> create_edges projectId documentId entityMap rest store createdEdges
      | (Own sourceId, Own targetId) \<Rightarrow>
          (let edge = \<lparr>eg_id = db_next_id store, eg_projectId = projectId,
                        eg_sourceId = sourceId, eg_targetId = targetId,
                        eg_label = rd_label relData,
                        eg_weight = (if rd_weight relData = 0 then 1 else rd_weight relData),
                        eg_documentId = documentId\<rparr>;
               store' = store\<lparr>db_edge := db_edge store @ [edge],
                              db_next_id := Suc (db_next_id store)\<rparr>
           in create_edges projectId documentId entityMap rest store' (createdEdges @ [edge]))
      | _ \<Rightarrow> (store, Inl PrismaClientValidationError))"

text \<open>The loop over the insights.\<close>

fun create_insights ::
  "string \<Rightarrow> InsightData list \<Rightarrow> Store \<Rightarrow> InsightRow list \<Rightarrow> Store \<times> InsightRow list" where
  "create_insights projectId [] store createdInsights = (store, createdInsights)"
| "create_insights projectId (insightData # rest) store createdInsights =
     (let insight = \<lparr>ins_id = db_next_id store, ins_projectId = projectId,
                      ins_type = in_type insightData, ins_severity = in_severity insightData,
                      ins_text = in_text insightData\<rparr>;
          store' = store\<lparr>db_insight := db_insight store @ [insight],
                         db_next_id := Suc (db_next_id store)\<rparr>
      in create_insights projectId rest store' (createdInsights @ [insight]))"

text \<open>
  The grouping loop:
  \<^verbatim>\<open>if (!territoriesMap[entity.type]) territoriesMap[entity.type] = []\<close>
  \<^verbatim>\<open>territoriesMap[entity.type].push(entity.id)\<close>.
  For a type that names a property of the prototype the first read is truthy and the
  inherited value has no \<^verbatim>\<open>push\<close>: a \<^verbatim>\<open>TypeError\<close>.
\<close>

fun group_by_type ::
  "EntityRow list \<Rightarrow> (jstring \<times> nat list) list \<Rightarrow> js_error + (jstring \<times> nat list) list" where
  "group_by_type [] territoriesMap = Inr territoriesMap"
| "group_by_type (entity # rest) territoriesMap =
     (case obj_get territoriesMap (en_type entity) of
        Undefined \<Rightarrow>
          group_by_type rest (AList.update (en_type entity) [en_id entity] territoriesMap)
      | Own ids \<Rightarrow>
          group_by_type rest (AList.update (en_type entity) (ids @ [en_id entity]) territoriesMap)
      | Inherited \<Rightarrow> Inl TypeError)"

text \<open>
  \<^verbatim>\<open>type.charAt(0).toUpperCase() + type.slice(1)\<close>. \<open>toUpperCase\<close> is
  \<^verbatim>\<open>String.prototype.toUpperCase\<close> on a string of one code unit: the table of the
  platform, a parameter here. Its result may hold more than one code unit.
\<close>

definition capitalize :: "('a \<Rightarrow> 'a list) \<Rightarrow> 'a list \<Rightarrow> 'a list" where
  "capitalize toUpperCase s = (case s of [] \<Rightarrow> [] | c # cs \<Rightarrow> toUpperCase c @ cs)"

text \<open>
  The loop over \<^verbatim>\<open>Object.entries(territoriesMap)\<close>: one known territory per type, and
  \<^verbatim>\<open>prisma.entity.updateMany\<close> sets the territory of the entities of the group.
\<close>

fun create_known_territories ::
  "(int \<Rightarrow> jstring) \<Rightarrow> string \<Rightarrow> (jstring \<times> nat list) list \<Rightarrow> Store \<Rightarrow> TerritoryRow list
   \<Rightarrow> Store \<times> TerritoryRow list" where
  "create_known_territories toUpperCase projectId [] store createdTerritories = (store, createdTerritories)"
| "create_known_territories toUpperCase projectId ((type, entityIds) # rest) store createdTerritories =
     (let territory = \<lparr>tr_id = db_next_id store, tr_projectId = projectId,
                        tr_name = capitalize toUpperCase type, tr_type = type, tr_status = ''known'',
                        tr_description = Some (str ''Territory containing ''
                                               @ str (show_nat (length entityIds))
                                               @ str '' '' @ type @ str '' entities''),
                        tr_hint = None, tr_risk = None, tr_value = None, tr_accessNeeded = None\<rparr>;
          store' = store\<lparr>db_territory := db_territory store @ [territory],
                         db_entity := map (\<lambda>e. if en_id e \<in> set entityIds
                                                then e\<lparr>en_territoryId := Some (tr_id territory)\<rparr>
                                                else e) (db_entity store),
                         db_next_id := Suc (db_next_id store)\<rparr>
      in create_known_territories toUpperCase projectId rest store' (createdTerritories @ [territory]))"

text \<open>The loop over the frontier hints.\<close>

fun create_frontier_territories ::
  "string \<Rightarrow> FrontierHintData list \<Rightarrow> Store \<Rightarrow> TerritoryRow list \<Rightarrow> Store \<times> TerritoryRow list" where
  "create_frontier_territories projectId [] store createdTerritories = (store, createdTerritories)"
| "create_frontier_territories projectId (hintData # rest) store createdTerritories =
     (let frontierTerritory =
            \<lparr>tr_id = db_next_id store, tr_projectId = projectId, tr_name = fh_name hintData,
             tr_type = str ''frontier'', tr_status = ''frontier'', tr_description = None,
             tr_hint = Some (fh_hint hintData), tr_risk = Some (fh_risk hintData),
             tr_value = Some (fh_value hintData),
             tr_accessNeeded = Some (fh_access_needed hintData)\<rparr>;
          store' = store\<lparr>db_territory := db_territory store @ [frontierTerritory],
                         db_next_id := Suc (db_next_id store)\<rparr>
      in create_frontier_territories projectId rest store' (createdTerritories @ [frontierTerritory]))"

text \<open>
  The agent hierarchy. \<^verbatim>\<open>prisma.agent.create\<close> of the coordinator; then
  \<^verbatim>\<open>majorTypes = Object.entries(territoriesMap).filter(([_, entityIds]) => entityIds.length >= 3).map(([type]) => type)\<close>
  and one explorer per major type, \<^verbatim>\<open>entitiesManaged: territoriesMap[type].length\<close>.
\<close>

definition create_coordinator :: "string \<Rightarrow> EntityRow list \<Rightarrow> Store \<Rightarrow> Store \<times> AgentRow" where
  "create_coordinator projectId createdEntities store =
     (let coordinator = \<lparr>ag_id = db_next_id store, ag_projectId = projectId,
                          ag_name = str ''System Coordinator'', ag_role = ''coordinator'',
                          ag_status = ''active'', ag_domain = None,
                          ag_description =
                            Some (str ''Primary agent overseeing knowledge extraction and analysis''),
                          ag_entitiesManaged = length createdEntities,
                          ag_parentAgentId = None\<rparr>
      in (store\<lparr>db_agent := db_agent store @ [coordinator],
                 db_next_id := Suc (db_next_id store)\<rparr>, coordinator))"

definition majorTypes :: "(jstring \<times> nat list) list \<Rightarrow> jstring list" where
  "majorTypes territoriesMap =
     map fst (filter (\<lambda>p. length (snd p) \<ge> 3) (Object_entries territoriesMap))"

fun create_explorers ::
  "(int \<Rightarrow> jstring) \<Rightarrow> string \<Rightarrow> AgentRow \<Rightarrow> (jstring \<times> nat list) list \<Rightarrow> jstring list \<Rightarrow> Store \<Rightarrow> AgentRow list
   \<Rightarrow> Store \<times> (js_error + AgentRow list)" where
  "create_explorers toUpperCase projectId coordinator territoriesMap [] store createdAgents =
     (store, Inr createdAgents)"
| "create_explorers toUpperCase projectId coordinator territoriesMap (type # rest) store createdAgents =
     (case obj_get territoriesMap type of
        Own ids \<Rightarrow>
          (let agent = \<lparr>ag_id = db_next_id store, ag_projectId = projectId,
                         ag_name = capitalize toUpperCase type @ str '' Explorer'', ag_role = ''explorer'',
                         ag_status = ''active'', ag_domain = Some type,
                         ag_description =
                           Some (str ''Specialized agent for analyzing '' @ type @ str '' entities''),
                         ag_entitiesManaged = length ids,
                         ag_parentAgentId = Some (ag_id coordinator)\<rparr>;
               store' = store\<lparr>db_agent := db_agent store @ [agent],
                              db_next_id := Suc (db_next_id store)\<rparr>
           in create_explorers toUpperCase projectId coordinator territoriesMap rest store'
                (createdAgents @ [agent]))
      | _ \<Rightarrow> (store, Inl TypeError))"

text \<open>The counts of the response.\<close>

record Summary =
  sum_entities :: nat
  sum_relationships :: nat
  sum_insights :: nat
  sum_territories :: nat
  sum_agents :: nat

text \<open>
  The statements of the handler from \<^verbatim>\<open>// Create entities\<close> to the update of the
  document (\<^verbatim>\<open>status: 'extracted'\<close> and the two counts), in their order.
\<close>

definition set_document ::
  "string \<Rightarrow> (DocumentRow \<Rightarrow> DocumentRow) \<Rightarrow> Store \<Rightarrow> Store" where
  "set_document documentId f store =
     store\<lparr>db_document := map (\<lambda>d. if doc_id d = documentId then f d else d) (db_document store)\<rparr>"

definition materialize ::
  "(int \<Rightarrow> jstring) \<Rightarrow> string \<Rightarrow> string \<Rightarrow> string \<Rightarrow> ExtractionResult \<Rightarrow> Store \<Rightarrow> Store \<times> (js_error + Summary)" where
  "materialize toUpperCase projectId documentId extractorName extractionResult store =
     (case create_entities projectId documentId extractorName (entities extractionResult)
             store [] [] of
        (store1, entityMap, createdEntities) \<Rightarrow>
     (case create_edges projectId documentId entityMap (relationships extractionResult)
             store1 [] of
        (store2, Inl err) \<Rightarrow> (store2, Inl err)
      | (store2, Inr createdEdges) \<Rightarrow>
     (case create_insights projectId (insights extractionResult) store2 [] of
        (store3, createdInsights) \<Rightarrow>
     (case group_by_type createdEntities [] of
        Inl err \<Rightarrow> (store3, Inl err)
      | Inr territoriesMap \<Rightarrow>
     (case create_known_territories toUpperCase projectId (Object_entries territoriesMap) store3 [] of
        (store4, knownTerritories) \<Rightarrow>
     (case create_frontier_territories projectId (frontier_hints extractionResult) store4
             knownTerritories of
        (store5, createdTerritories) \<Rightarrow>
     (case create_coordinator projectId createdEntities store5 of
        (store6, coordinator) \<Rightarrow>
     (case create_explorers toUpperCase projectId coordinator territoriesMap (majorTypes territoriesMap)
             store6 [coordinator] of
        (store7, Inl err) \<Rightarrow> (store7, Inl err)
      | (store7, Inr createdAgents) \<Rightarrow>
          (set_document documentId
             (\<lambda>d. d\<lparr>doc_status := ''extracted'', doc_entityCount := length createdEntities,
                     doc_edgeCount := length createdEdges\<rparr>) store7,
           Inr \<lparr>sum_entities = length createdEntities, sum_relationships = length createdEdges,
                sum_insights = length createdInsights,
                sum_territories = length createdTerritories,
                sum_agents = length createdAgents\<rparr>)))))))))"

subsection \<open>The handler\<close>

text \<open>The response: an error with its status code, or the summary of a completed pass.\<close>

datatype response = Json_error string nat | Json_summary Summary

text \<open>\<^verbatim>\<open>prisma.settings.create\<close> of the default settings of a project.\<close>

definition default_settings :: "string \<Rightarrow> Settings" where
  "default_settings projectId =
     \<lparr>s_projectId = projectId, s_aiProvider = ''claude'', s_claudeApiKey = None,
      s_ollamaUrl = ''http://localhost:11434'', s_ollamaModel = ''llama3.2'',
      s_autoExtract = True, s_extractionDepth = ''deep''\<rparr>"

text \<open>
  The \<^verbatim>\<open>catch (error)\<close> of the handler: the document is marked failed and the response
  is the error 500.
\<close>

definition extraction_failed :: "string \<Rightarrow> Store \<Rightarrow> Store \<times> response" where
  "extraction_failed docId store =
     (set_document docId (\<lambda>d. d\<lparr>doc_status := ''failed''\<rparr>) store,
      Json_error ''Extraction failed'' 500)"

text \<open>
  \<^verbatim>\<open>POST\<close>. \<open>env_key\<close> is \<^verbatim>\<open>process.env.ANTHROPIC_API_KEY\<close>, \<open>service\<close> the remote service,
  \<open>projectId\<close> and \<open>docId\<close> the parameters of the request. The result is \<open>None\<close> when a
  merged element does not inhabit the interface of the extraction result: such
  responses are outside the model.
\<close>

definition POST ::
  "(int \<Rightarrow> jstring) \<Rightarrow> string option \<Rightarrow> (nat \<Rightarrow> string \<Rightarrow> js_error + string) \<Rightarrow> string \<Rightarrow> string \<Rightarrow> Store
   \<Rightarrow> (Store \<times> response) option" where
  "POST toUpperCase env_key service projectId docId store =
     (case find (\<lambda>d. doc_id d = docId \<and> doc_projectId d = projectId) (db_document store) of
        None \<Rightarrow> Some (store, Json_error ''Document not found'' 404)
      | Some document \<Rightarrow>
          (let (store1, settings) =
                 (case find (\<lambda>s. s_projectId s = projectId) (db_settings store) of
                    Some s \<Rightarrow> (store, s)
                  | None \<Rightarrow> (store\<lparr>db_settings := db_settings store @ [default_settings projectId]\<rparr>,
                             default_settings projectId))
           in if s_aiProvider settings = ''none'' then
                Some (store1,
                  Json_error ''AI extraction is not configured. Please enable an AI provider in settings.'' 400)
              else if s_aiProvider settings = ''claude'' \<and> \<not> truthy_string (s_claudeApiKey settings)
                      \<and> \<not> truthy_string env_key then
                Some (store1,
                  Json_error ''Claude API key not configured. Please add your API key in project settings or set ANTHROPIC_API_KEY environment variable.'' 500)
              else
                (let store2 = set_document (doc_id document)
                                (\<lambda>d. d\<lparr>doc_status := ''processing''\<rparr>) store1;
                     content = (case doc_content document of None \<Rightarrow> [] | Some c \<Rightarrow> c);
                     chunks = chunk_content MAX_CONTENT_CHARS content
                 in case extract_chunks (callAI settings service) (length chunks) 0 chunks
                           no_results ''unknown'' of
                      Inl err \<Rightarrow> Some (extraction_failed docId store2)
                    | Inr (mergedResult, extractorName) \<Rightarrow>
                        (case as_ExtractionResult mergedResult of
                           None \<Rightarrow> None
                         | Some extractionResult \<Rightarrow>
                             (case materialize toUpperCase projectId (doc_id document) extractorName
                                     extractionResult store2 of
                                (store3, Inl err) \<Rightarrow> Some (extraction_failed docId store3)
                              | (store3, Inr summary) \<Rightarrow> Some (store3, Json_summary summary))))))"

text \<open>A store with one uploaded document and nothing else, and results, for the examples.\<close>

definition store_with :: "string option \<Rightarrow> Store" where
  "store_with content =
     \<lparr>db_document = [\<lparr>doc_id = ''d1'', doc_projectId = ''p1'', doc_filename = ''notes.txt'',
                       doc_content = content, doc_status = ''uploaded'',
                       doc_entityCount = 0, doc_edgeCount = 0\<rparr>],
      db_settings = [\<lparr>s_projectId = ''p1'', s_aiProvider = ''ollama'', s_claudeApiKey = None,
                      s_ollamaUrl = ''http://localhost:11434'', s_ollamaModel = ''llama3.2'',
                      s_autoExtract = True, s_extractionDepth = ''deep''\<rparr>],
      db_entity = [], db_edge = [], db_insight = [], db_territory = [], db_agent = [],
      db_next_id = 0\<rparr>"

text \<open>
  For the examples, whose characters are all ASCII: the upper case of the letters a to
  z, every other code unit left as it is.
\<close>

definition upper_ascii_unit :: "int \<Rightarrow> jstring" where
  "upper_ascii_unit u = (if 97 \<le> u \<and> u \<le> 122 then [u - 32] else [u])"

definition entity_named :: "string \<Rightarrow> string \<Rightarrow> EntityData" where
  "entity_named n t =
     \<lparr>ed_name = str n, ed_type = str t, ed_subtype = None, ed_description = None, ed_metadata = None\<rparr>"

definition relates :: "string \<Rightarrow> string \<Rightarrow> RelationshipData" where
  "relates s t =
     \<lparr>rd_source = str s, rd_target = str t, rd_label = str ''works with'', rd_weight = 1\<rparr>"

text \<open>
  A document of three paragraphs of 60000 characters each, separated by blank lines:
  180004 characters, more than the budget of one chunk, any two paragraphs together
  more than the budget too.
\<close>

definition three_paragraphs :: string where
  "three_paragraphs =
     replicate 60000 (CHR ''a'') @ [CHR 0x0A, CHR 0x0A] @ replicate 60000 (CHR ''b'')
     @ [CHR 0x0A, CHR 0x0A] @ replicate 60000 (CHR ''c'')"


subsection \<open>Read-time reconciliation of territories\<close>

text \<open>
  The territories route reads the project's Territory rows, each with the entities that
  point at it (\<^verbatim>\<open>select: { id, name, type }\<close>). A JavaScript \<^verbatim>\<open>Map\<close> is an association
  list in insertion order: \<^const>\<open>map_of\<close> is \<^verbatim>\<open>get\<close>/\<^verbatim>\<open>has\<close>, \<^const>\<open>AList.update\<close> is
  \<^verbatim>\<open>set\<close> (a key already present keeps its place), and \<^const>\<open>AList.map_entry\<close> changes
  the value stored under a key in place.
\<close>

record EntityRef =
  e_id :: string
  e_name :: string
  e_type :: string

record Territory =
  t_id :: string
  t_name :: string
  t_type :: string
  t_status :: string
  t_description :: "string option"
  t_hint :: "string option"
  t_risk :: "string option"
  t_value :: "string option"
  t_accessNeeded :: "string option"
  t_entities :: "EntityRef list"

record KnownTerritory =
  k_id :: string
  k_name :: string
  k_type :: string
  k_status :: string
  k_description :: "string option"
  k_entities :: "string list"
  k_entityDetails :: "EntityRef list"

record FrontierTerritory =
  f_id :: string
  f_name :: string
  f_type :: string
  f_status :: string
  f_hint :: "string option"
  f_risk :: "string option"
  f_value :: "string option"
  f_accessNeeded :: "string option"

text \<open>\<^verbatim>\<open>const key = `${t.name}|${t.type}|${t.status}`\<close>\<close>

definition territory_key :: "Territory \<Rightarrow> string" where
  "territory_key t = t_name t @ ''|'' @ t_type t @ ''|'' @ t_status t"

text \<open>
  One turn of the grouping loop:
  \<^verbatim>\<open>if (!groups.has(key)) groups.set(key, []); groups.get(key)!.push(t)\<close>
\<close>

definition group_step ::
  "(string \<times> Territory list) list \<Rightarrow> Territory \<Rightarrow> (string \<times> Territory list) list" where
  "group_step groups t =
     (let key = territory_key t;
          groups1 = (if map_of groups key = None then AList.update key [] groups else groups)
      in AList.map_entry key (\<lambda>grp. grp @ [t]) groups1)"

text \<open>
  \<^verbatim>\<open>return Array.from(groups.values()).map(group => mapper(group[0], group))\<close>.
  \<^verbatim>\<open>group[0]\<close> of an empty group would be \<^verbatim>\<open>undefined\<close>; every group is created by a
  push, so the first branch is never taken (lemma \<open>dedup_eq\<close>).
\<close>

definition dedup :: "Territory list \<Rightarrow> (Territory \<Rightarrow> Territory list \<Rightarrow> 'b) \<Rightarrow> 'b list" where
  "dedup items mapper =
     concat (map (\<lambda>grp. case grp of [] \<Rightarrow> [] | first # _ \<Rightarrow> [mapper first grp])
                 (map snd (foldl group_step [] items)))"

text \<open>
  The mapper of the known territories:
  \<^verbatim>\<open>const entityMap = new Map(); for (const t of group) for (const e of t.entities) entityMap.set(e.id, e)\<close>
\<close>

definition known_mapper :: "Territory \<Rightarrow> Territory list \<Rightarrow> KnownTerritory" where
  "known_mapper first grp =
     (let entityMap =
            foldl (\<lambda>m t. foldl (\<lambda>m e. AList.update (e_id e) e m) m (t_entities t)) [] grp;
          allEntities = map snd entityMap
      in \<lparr>k_id = t_id first, k_name = t_name first, k_type = t_type first,
          k_status = t_status first, k_description = t_description first,
          k_entities = map e_id allEntities, k_entityDetails = allEntities\<rparr>)"

definition frontier_mapper :: "Territory \<Rightarrow> Territory list \<Rightarrow> FrontierTerritory" where
  "frontier_mapper first grp =
     \<lparr>f_id = t_id first, f_name = t_name first, f_type = t_type first,
      f_status = t_status first, f_hint = t_hint first, f_risk = t_risk first,
      f_value = t_value first, f_accessNeeded = t_accessNeeded first\<rparr>"

text \<open>The response of the route: \<^verbatim>\<open>{ known, frontier }\<close>.\<close>

definition GET_territories :: "Territory list \<Rightarrow> KnownTerritory list \<times> FrontierTerritory list" where
  "GET_territories territories =
     (dedup (filter (\<lambda>t. t_status t = ''known'') territories) known_mapper,
      dedup (filter (\<lambda>t. t_status t = ''frontier'') territories) frontier_mapper)"

text \<open>The elements of a list in the order of their first occurrence, each once.\<close>

definition first_occurrences :: "'a list \<Rightarrow> 'a list" where
  "first_occurrences xs = rev (remdups (rev xs))"

text \<open>Rows for the examples.\<close>

definition person_row1 :: Territory where
  "person_row1 = \<lparr>t_id = ''t1'', t_name = ''Person'', t_type = ''person'', t_status = ''known'',
     t_description = Some ''Territory containing 2 person entities'', t_hint = None,
     t_risk = None, t_value = None, t_accessNeeded = None,
     t_entities = [\<lparr>e_id = ''e1'', e_name = ''Ann'', e_type = ''person''\<rparr>,
                   \<lparr>e_id = ''e2'', e_name = ''Bob'', e_type = ''person''\<rparr>]\<rparr>"

definition person_row2 :: Territory where
  "person_row2 = \<lparr>t_id = ''t2'', t_name = ''Person'', t_type = ''person'', t_status = ''known'',
     t_description = Some ''Territory containing 2 person entities'', t_hint = None,
     t_risk = None, t_value = None, t_accessNeeded = None,
     t_entities = [\<lparr>e_id = ''e2'', e_name = ''Bob'', e_type = ''person''\<rparr>,
                   \<lparr>e_id = ''e3'', e_name = ''Cy'', e_type = ''person''\<rparr>]\<rparr>"

text \<open>
  The rows the route reads are those the extraction route wrote, the only writer of
  Territory rows: a known row per type of entity, with
  \<^verbatim>\<open>name: type.charAt(0).toUpperCase() + type.slice(1), type: type, status: 'known'\<close>, and
  a frontier row per hint, with \<^verbatim>\<open>type: 'frontier', status: 'frontier'\<close>.
\<close>

definition written_by_extraction :: "(char \<Rightarrow> string) \<Rightarrow> Territory \<Rightarrow> bool" where
  "written_by_extraction toUpperCase t =
     ((t_status t = ''known'' \<and> t_name t = capitalize toUpperCase (t_type t))
      \<or> (t_status t = ''frontier'' \<and> t_type t = ''frontier''))"

text \<open>
  For the examples, whose characters are all ASCII: the upper case of the letters a to
  z, every other character left as it is.
\<close>

definition upper_ascii :: "char \<Rightarrow> string" where
  "upper_ascii c = (if 97 \<le> code c \<and> code c \<le> 122 then [char_of (code c - 32)] else [c])"

subsection \<open>Read-time reconciliation of agents\<close>

text \<open>
  The agent tree view receives the rows of the agents route (\<^verbatim>\<open>interface Agent\<close>);
  the dates are the ISO strings of the route.
\<close>

record AgentChild =
  c_id :: string
  c_name :: string
  c_role :: string
  c_status :: string
  c_domain :: "string option"
  c_entitiesManaged :: int

record Agent =
  a_id :: string
  a_name :: string
  a_role :: string
  a_status :: string
  a_domain :: "string option"
  a_description :: "string option"
  a_entitiesManaged :: int
  a_parentAgentId :: "string option"
  a_childAgents :: "AgentChild list"
  a_createdAt :: string
  a_updatedAt :: string

text \<open>
  \<^verbatim>\<open>new Date(a) > new Date(b)\<close>. The time value of a date string is a parameter
  (\<open>None\<close> for an invalid date, whose comparisons are all false).
\<close>

definition date_gt :: "(string \<Rightarrow> int option) \<Rightarrow> string \<Rightarrow> string \<Rightarrow> bool" where
  "date_gt Date a b = (case (Date a, Date b) of (Some x, Some y) \<Rightarrow> x > y | _ \<Rightarrow> False)"

text \<open>\<^verbatim>\<open>const key = `${agent.name}_${agent.role}`\<close>\<close>

definition agent_key :: "Agent \<Rightarrow> string" where
  "agent_key agent = a_name agent @ ''_'' @ a_role agent"

text \<open>The branch \<^verbatim>\<open>if (merged.has(key))\<close>: the five updates of \<open>existing\<close>, in order.\<close>

definition merge_into :: "(string \<Rightarrow> int option) \<Rightarrow> Agent \<Rightarrow> Agent \<Rightarrow> Agent" where
  "merge_into Date existing agent =
     (let e1 = existing\<lparr>a_entitiesManaged := a_entitiesManaged existing + a_entitiesManaged agent\<rparr>;
          e2 = (if a_status agent = ''active'' \<and> a_status e1 \<noteq> ''active''
                then e1\<lparr>a_status := a_status agent\<rparr> else e1);
          e3 = (if date_gt Date (a_createdAt agent) (a_createdAt e2)
                then e2\<lparr>a_createdAt := a_createdAt agent, a_updatedAt := a_updatedAt agent\<rparr>
                else e2);
          e4 = (if truthy_string (a_description agent) \<and> \<not> truthy_string (a_description e3)
                then e3\<lparr>a_description := a_description agent\<rparr> else e3);
          e5 = (if truthy_string (a_domain agent) \<and> \<not> truthy_string (a_domain e4)
                then e4\<lparr>a_domain := a_domain agent\<rparr> else e4)
      in e5)"

definition dedup_step ::
  "(string \<Rightarrow> int option) \<Rightarrow> (string \<times> Agent) list \<Rightarrow> Agent \<Rightarrow> (string \<times> Agent) list" where
  "dedup_step Date merged agent =
     (let key = agent_key agent in
      case map_of merged key of
        Some existing \<Rightarrow> AList.update key (merge_into Date existing agent) merged
      | None \<Rightarrow> AList.update key agent merged)"

text \<open>\<^verbatim>\<open>agents.forEach(...); return Array.from(merged.values())\<close>\<close>

definition deduplicateAgents :: "(string \<Rightarrow> int option) \<Rightarrow> Agent list \<Rightarrow> Agent list" where
  "deduplicateAgents Date agents = map snd (foldl (dedup_step Date) [] agents)"

text \<open>The invariant of the map \<^verbatim>\<open>merged\<close>: every agent is stored under its own key, once.\<close>

definition keyed :: "(string \<times> Agent) list \<Rightarrow> bool" where
  "keyed m = (distinct (map fst m) \<and> (\<forall>(k, a)\<in>set m. agent_key a = k))"

section \<open>Verification\<close>

subsection \<open>Chunker\<close>

lemma filter_dropWhile_newlines:
  "filter (\<lambda>x. x \<noteq> CHR 0x0A) (dropWhile (\<lambda>x. x = CHR 0x0A) cs) = filter (\<lambda>x. x \<noteq> CHR 0x0A) cs"
  by (induction cs) auto

lemma js_split_paragraphs_from_keeps:
  "filter (\<lambda>x. x \<noteq> CHR 0x0A) (concat (js_split_paragraphs_from cur s))
   = filter (\<lambda>x. x \<noteq> CHR 0x0A) (rev cur @ s)"
  by (induction cur s rule: js_split_paragraphs_from.induct)
     (auto simp: filter_dropWhile_newlines)

lemma pack_sections_keeps:
  "filter (\<lambda>x. x \<noteq> CHR 0x0A) (concat (pack_sections maxc cur secs))
   = filter (\<lambda>x. x \<noteq> CHR 0x0A) (cur @ concat secs)"
  by (induction secs arbitrary: cur) auto

lemma pack_sections_no_empty: "[] \<notin> set (pack_sections maxc cur secs)"
  by (induction secs arbitrary: cur) auto

lemma pack_sections_bound:
  "length cur \<le> maxc \<or> cur \<in> S \<Longrightarrow> set secs \<subseteq> S \<Longrightarrow> c \<in> set (pack_sections maxc cur secs)
   \<Longrightarrow> length c \<le> maxc \<or> c \<in> S"
proof (induction secs arbitrary: cur)
  case Nil
  then show ?case by (auto split: if_splits)
next
  case (Cons s secs)
  show ?case
  proof (cases "length (cur @ [CHR 0x0A, CHR 0x0A] @ s) > maxc \<and> length cur > 0")
    case True
    with Cons.prems have "c = cur \<or> c \<in> set (pack_sections maxc s secs)" by auto
    then show ?thesis
    proof
      assume "c = cur"
      with Cons.prems(1) show ?thesis by simp
    next
      assume "c \<in> set (pack_sections maxc s secs)"
      moreover have "length s \<le> maxc \<or> s \<in> S" using Cons.prems(2) by simp
      moreover have "set secs \<subseteq> S" using Cons.prems(2) by simp
      ultimately show ?thesis using Cons.IH by blast
    qed
  next
    case False
    let ?cur' = "if cur \<noteq> [] then cur @ [CHR 0x0A, CHR 0x0A] @ s else s"
    from False Cons.prems(3) have mem: "c \<in> set (pack_sections maxc ?cur' secs)"
      by (auto split: if_splits)
    have "length ?cur' \<le> maxc \<or> ?cur' \<in> S"
      using False Cons.prems(2) by auto
    moreover have "set secs \<subseteq> S" using Cons.prems(2) by simp
    ultimately show ?thesis using Cons.IH mem by blast
  qed
qed

lemma pack_sections_nonempty:
  "cur \<noteq> [] \<or> (\<exists>s\<in>set secs. s \<noteq> []) \<Longrightarrow> pack_sections maxc cur secs \<noteq> []"
  by (induction secs arbitrary: cur) auto

lemma js_split_paragraphs_has_section:
  assumes "\<exists>x\<in>set content. x \<noteq> CHR 0x0A"
  shows "\<exists>s\<in>set (js_split_paragraphs content). s \<noteq> []"
proof (rule ccontr)
  assume "\<not> (\<exists>s\<in>set (js_split_paragraphs content). s \<noteq> [])"
  then have h: "concat (js_split_paragraphs_from [] content) = []"
    by (auto simp: js_split_paragraphs_def)
  have "filter (\<lambda>x. x \<noteq> CHR 0x0A) content
        = filter (\<lambda>x. x \<noteq> CHR 0x0A) (concat (js_split_paragraphs_from [] content))"
    by (simp only: js_split_paragraphs_from_keeps rev.simps append_Nil)
  also have "\<dots> = []" unfolding h by simp
  finally have "filter (\<lambda>x. x \<noteq> CHR 0x0A) content = []" .
  with assms show False by (auto simp: filter_empty_conv)
qed

lemma js_split_paragraphs_newlines:
  "js_split_paragraphs (replicate (Suc (Suc n)) (CHR 0x0A)) = [[], []]"
  by (simp add: js_split_paragraphs_def)

lemma chunk_content_newlines:
  assumes "\<forall>x\<in>set content. x = CHR 0x0A" and "2 \<le> length content"
    and "maxc < length content"
  shows "chunk_content maxc content = []"
proof -
  from assms(1) have "content = replicate (length content) (CHR 0x0A)"
    by (metis replicate_length_same)
  moreover from assms(2) obtain n where "length content = Suc (Suc n)"
    by (metis Suc_le_D numeral_2_eq_2 Suc_le_mono)
  ultimately have "content = replicate (Suc (Suc n)) (CHR 0x0A)" by simp
  then have "js_split_paragraphs content = [[], []]"
    by (metis js_split_paragraphs_newlines)
  with assms(3) show ?thesis by (simp add: chunk_content_def)
qed

text \<open>
  C5, as stated, fails: a text of 100001 newlines, longer than the budget, splits into
  two empty sections, the loop pushes no empty chunk, and no chunk is emitted at all.
\<close>

theorem chunk_content_counterexample:
  "chunk_content MAX_CONTENT_CHARS (replicate 100001 (CHR 0x0A)) = []"
proof -
  have n: "(100001::nat) = Suc (Suc 99999)" by simp
  have "js_split_paragraphs (replicate 100001 (CHR 0x0A)) = [[], []]"
    unfolding n by (rule js_split_paragraphs_newlines)
  then show ?thesis
    by (simp add: chunk_content_def MAX_CONTENT_CHARS_def)
qed

text \<open>
  C5, amended. For every text that is not empty and every budget, no chunk emitted is
  empty. A text no longer than the budget is emitted as exactly one chunk, the text
  itself. A longer text yields chunks each at most the budget long unless it is a
  single paragraph of the text emitted alone; it yields at least one chunk when it has
  a character other than newline, and no chunk when it consists of two or more
  newlines only. In both cases the chunks are in the order of the text: their
  characters other than newlines are those of the text, in order.
\<close>

theorem chunk_content_spec:
  assumes "content \<noteq> []"
  shows "(\<forall>c\<in>set (chunk_content maxc content). c \<noteq> [])
   \<and> (length content \<le> maxc \<longrightarrow> chunk_content maxc content = [content])
   \<and> (maxc < length content \<longrightarrow>
        (\<forall>c\<in>set (chunk_content maxc content).
            length c \<le> maxc \<or> c \<in> set (js_split_paragraphs content))
        \<and> ((\<exists>x\<in>set content. x \<noteq> CHR 0x0A) \<longrightarrow> chunk_content maxc content \<noteq> [])
        \<and> ((\<forall>x\<in>set content. x = CHR 0x0A) \<and> 2 \<le> length content
              \<longrightarrow> chunk_content maxc content = []))
   \<and> filter (\<lambda>x. x \<noteq> CHR 0x0A) (concat (chunk_content maxc content))
       = filter (\<lambda>x. x \<noteq> CHR 0x0A) content"
proof (intro conjI impI ballI)
  fix c assume c: "c \<in> set (chunk_content maxc content)"
  show "c \<noteq> []"
  proof (cases "length content \<le> maxc")
    case True
    with c assms show ?thesis by (simp add: chunk_content_def)
  next
    case False
    with c have "c \<in> set (pack_sections maxc [] (js_split_paragraphs content))"
      by (simp add: chunk_content_def)
    then show ?thesis using pack_sections_no_empty by metis
  qed
next
  assume "length content \<le> maxc"
  then show "chunk_content maxc content = [content]" by (simp add: chunk_content_def)
next
  fix c assume big: "maxc < length content" and c: "c \<in> set (chunk_content maxc content)"
  from big c have mem: "c \<in> set (pack_sections maxc [] (js_split_paragraphs content))"
    by (simp add: chunk_content_def)
  show "length c \<le> maxc \<or> c \<in> set (js_split_paragraphs content)"
    using pack_sections_bound [of "[]" maxc "set (js_split_paragraphs content)"
        "js_split_paragraphs content" c] mem by simp
next
  assume big: "maxc < length content" and ex: "\<exists>x\<in>set content. x \<noteq> CHR 0x0A"
  from js_split_paragraphs_has_section [OF ex]
  have "pack_sections maxc [] (js_split_paragraphs content) \<noteq> []"
    by (intro pack_sections_nonempty) simp
  with big show "chunk_content maxc content \<noteq> []" by (simp add: chunk_content_def)
next
  assume "maxc < length content"
    and "(\<forall>x\<in>set content. x = CHR 0x0A) \<and> 2 \<le> length content"
  then show "chunk_content maxc content = []"
    using chunk_content_newlines [of content maxc] by blast
next
  show "filter (\<lambda>x. x \<noteq> CHR 0x0A) (concat (chunk_content maxc content))
        = filter (\<lambda>x. x \<noteq> CHR 0x0A) content"
    using js_split_paragraphs_from_keeps [of "[]" content]
    by (simp add: chunk_content_def pack_sections_keeps js_split_paragraphs_def)
qed

theorem chunk_content_spec_witness:
  "length ''abc'' \<le> 5 \<and> chunk_content 5 ''abc'' = [''abc'']
   \<and> 5 < length ''aaaa\<newline>\<newline>bbbbbbb\<newline>\<newline>cc''
   \<and> (\<exists>x\<in>set ''aaaa\<newline>\<newline>bbbbbbb\<newline>\<newline>cc''. x \<noteq> CHR 0x0A)
   \<and> chunk_content 5 ''aaaa\<newline>\<newline>bbbbbbb\<newline>\<newline>cc'' = [''aaaa'', ''bbbbbbb'', ''cc'']
   \<and> filter (\<lambda>x. x \<noteq> CHR 0x0A) (concat (chunk_content 5 ''aaaa\<newline>\<newline>bbbbbbb\<newline>\<newline>cc''))
       = ''aaaabbbbbbbcc''
   \<and> 2 < length ''\<newline>\<newline>\<newline>'' \<and> chunk_content 2 ''\<newline>\<newline>\<newline>'' = []"
  using chunk_content_spec [of "''abc''" 5]
    chunk_content_spec [of "''aaaa\<newline>\<newline>bbbbbbb\<newline>\<newline>cc''" 5]
    chunk_content_spec [of "''\<newline>\<newline>\<newline>''" 2]
  by (simp add: chunk_content_def js_split_paragraphs_def)

subsection \<open>Result parser\<close>

lemma dropWhile_upto:
  "a \<notin> set pre \<Longrightarrow> dropWhile (\<lambda>c. c \<noteq> a) (pre @ a # rest) = a # rest"
  by (induction pre) auto

lemma json_match_intro:
  assumes "CHR ''{'' \<notin> set pre" and "CHR ''}'' \<notin> set post"
  shows "json_match (pre @ ''{'' @ body @ ''}'' @ post) = Some (''{'' @ body @ ''}'')"
proof -
  have 1: "dropWhile (\<lambda>c. c \<noteq> CHR ''{'') (pre @ ''{'' @ body @ ''}'' @ post)
           = ''{'' @ body @ ''}'' @ post"
    using assms(1) by (simp add: dropWhile_upto)
  have "CHR ''}'' \<notin> set (rev post)" using assms(2) by simp
  then have 2: "dropWhile (\<lambda>c. c \<noteq> CHR ''}'') (rev post @ CHR ''}'' # (rev body @ ''{''))
           = CHR ''}'' # (rev body @ ''{'')"
    by (rule dropWhile_upto)
  have 3: "rev (''{'' @ body @ ''}'' @ post) = rev post @ CHR ''}'' # (rev body @ ''{'')"
    by simp
  show ?thesis
    unfolding json_match_def Let_def 1 3 2 by simp
qed

lemma json_match_elim:
  assumes "json_match text = Some m"
  shows "\<exists>pre body post. text = pre @ ''{'' @ body @ ''}'' @ post \<and> m = ''{'' @ body @ ''}''
            \<and> CHR ''{'' \<notin> set pre \<and> CHR ''}'' \<notin> set post"
proof -
  let ?pre = "takeWhile (\<lambda>c. c \<noteq> CHR ''{'') text"
  let ?fb = "dropWhile (\<lambda>c. c \<noteq> CHR ''{'') text"
  let ?q = "takeWhile (\<lambda>c. c \<noteq> CHR ''}'') (rev ?fb)"
  let ?d = "dropWhile (\<lambda>c. c \<noteq> CHR ''}'') (rev ?fb)"
  from assms have "(if rev ?d = [] then None else Some (rev ?d)) = Some m"
    unfolding json_match_def Let_def .
  then have m: "m = rev ?d" and d: "?d \<noteq> []"
    by (metis option.distinct(1) option.inject, metis option.distinct(1) rev_is_Nil_conv)
  have split: "text = ?pre @ ?fb" by simp
  have pre: "CHR ''{'' \<notin> set ?pre" by (auto dest: set_takeWhileD)
  have "rev ?fb = ?q @ ?d" by simp
  then have "?fb = rev (?q @ ?d)" by (metis rev_rev_ident)
  then have "?fb = rev ?d @ rev ?q" by (simp only: rev_append)
  then have fb: "?fb = m @ rev ?q" by (simp only: m)
  have post: "CHR ''}'' \<notin> set (rev ?q)" by (auto dest: set_takeWhileD)
  from d have "hd ?d = CHR ''}''" using hd_dropWhile [of "\<lambda>c. c \<noteq> CHR ''}''" "rev ?fb"] by blast
  with d m have last: "last m = CHR ''}''" by (simp add: last_rev)
  from d m have mne: "m \<noteq> []" by simp
  with fb have fbne: "?fb \<noteq> []" by (metis append_is_Nil_conv)
  then have "hd ?fb = CHR ''{''" using hd_dropWhile [of "\<lambda>c. c \<noteq> CHR ''{''" "text"] by blast
  with fb mne have hd: "hd m = CHR ''{''" by (metis hd_append2)
  from mne hd obtain m' where m': "m = CHR ''{'' # m'" by (cases m) auto
  with last have "m' \<noteq> []" by auto
  with m' last obtain body where body: "m' = body @ ''}''"
    by (metis append_butlast_last_id last_ConsR)
  have "text = ?pre @ ''{'' @ body @ ''}'' @ rev ?q \<and> m = ''{'' @ body @ ''}''"
    using split fb m' body by (metis append.assoc append_Cons append_Nil)
  with pre post show ?thesis by blast
qed

text \<open>
  C2, as stated, fails: the parser does no brace matching. In a response that closes
  its object and then mentions braces again, the match runs from the first \<^verbatim>\<open>{\<close> to the
  last \<^verbatim>\<open>}\<close>; it is not the first balanced block, it does not parse, and the entity of
  the block is lost.
\<close>

theorem json_match_counterexample:
  \<open>spec_first_balanced_block ''{"entities":[{"name":"Acme","type":"client"}]} (see {notes})''
     = Some ''{"entities":[{"name":"Acme","type":"client"}]}''
   \<and> json_match ''{"entities":[{"name":"Acme","type":"client"}]} (see {notes})''
     = Some ''{"entities":[{"name":"Acme","type":"client"}]} (see {notes}''
   \<and> JSON_parse ''{"entities":[{"name":"Acme","type":"client"}]} (see {notes}'' = None
   \<and> JSON_parse ''{"entities":[{"name":"Acme","type":"client"}]}''
     = Some (JObj [(str ''entities'', JArr [JObj [(str ''name'', JStr (str ''Acme'')), (str ''type'', JStr (str ''client''))]])])
   \<and> allEntities (try_merge no_results
         ''{"entities":[{"name":"Acme","type":"client"}]} (see {notes})'') = []\<close>
  by code_simp

text \<open>
  C2, amended. For every raw response text, the parser takes the substring that runs
  from the first \<^verbatim>\<open>{\<close> of the text to its last \<^verbatim>\<open>}\<close> (the greedy match of the regular
  expression; there is none when no \<^verbatim>\<open>}\<close> follows the first \<^verbatim>\<open>{\<close>) and parses that
  substring. For the input \<^verbatim>\<open>noise {"entities":[],"relationships":[{"a":1}]} trailing\<close> the
  substring is the balanced object, and the parsed entities array is empty.
\<close>

theorem json_match_spec:
  \<open>(json_match text = Some m
      \<longleftrightarrow> (\<exists>pre body post. text = pre @ ''{'' @ body @ ''}'' @ post \<and> m = ''{'' @ body @ ''}''
             \<and> CHR ''{'' \<notin> set pre \<and> CHR ''}'' \<notin> set post))
   \<and> json_match ''noise {"entities":[],"relationships":[{"a":1}]} trailing''
       = Some ''{"entities":[],"relationships":[{"a":1}]}''
   \<and> spec_first_balanced_block ''noise {"entities":[],"relationships":[{"a":1}]} trailing''
       = Some ''{"entities":[],"relationships":[{"a":1}]}''
   \<and> JSON_parse ''{"entities":[],"relationships":[{"a":1}]}''
       = Some (JObj [(str ''entities'', JArr []), (str ''relationships'', JArr [JObj [(str ''a'', JNum 1 0)]])])
   \<and> try_merge no_results ''noise {"entities":[],"relationships":[{"a":1}]} trailing''
       = \<lparr>allEntities = [], allRelationships = [JObj [(str ''a'', JNum 1 0)]],
          allInsights = [], allFrontierHints = []\<rparr>\<close>
proof (intro conjI)
  show "json_match text = Some m
      \<longleftrightarrow> (\<exists>pre body post. text = pre @ ''{'' @ body @ ''}'' @ post \<and> m = ''{'' @ body @ ''}''
             \<and> CHR ''{'' \<notin> set pre \<and> CHR ''}'' \<notin> set post)"
    using json_match_elim [of "text" m] json_match_intro by blast
qed code_simp+

subsection \<open>Chunk loop\<close>

lemma try_merge_no_match: "json_match text = None \<Longrightarrow> try_merge acc text = acc"
  by (simp add: try_merge_def)

lemma try_merge_no_parse:
  "json_match text = Some m \<Longrightarrow> JSON_parse m = None \<Longrightarrow> try_merge acc text = acc"
  by (simp add: try_merge_def)

lemma push_field_appends: "push_field parsed name arr = Inr arr' \<Longrightarrow> \<exists>vs. arr' = arr @ vs"
  by (auto simp: push_field_def split: sum.splits option.splits if_splits)

lemma try_merge_appends:
  "prefix (allEntities acc) (allEntities (try_merge acc text))
   \<and> prefix (allRelationships acc) (allRelationships (try_merge acc text))
   \<and> prefix (allInsights acc) (allInsights (try_merge acc text))
   \<and> prefix (allFrontierHints acc) (allFrontierHints (try_merge acc text))"
  unfolding try_merge_def Let_def
  by (auto split: option.splits sum.splits dest!: push_field_appends)

lemma extract_chunks_all_answered:
  "length texts = length chunks \<Longrightarrow> length models = length chunks
   \<Longrightarrow> (\<forall>j<length chunks. call (i + j) (make_prompt n (i + j) (chunks ! j)) = Inr (texts ! j, models ! j))
   \<Longrightarrow> extract_chunks call n i chunks acc name
       = Inr (foldl try_merge acc texts, last (name # models))"
proof (induction chunks arbitrary: i texts models acc name)
  case Nil
  then show ?case by simp
next
  case (Cons c chunks)
  from Cons.prems obtain t texts' where t: "texts = t # texts'" by (cases texts) auto
  from Cons.prems obtain m models' where m: "models = m # models'" by (cases models) auto
  from Cons.prems(3) have 0: "call i (make_prompt n i c) = Inr (t, m)"
    using t m by force
  have rest: "\<forall>j<length chunks. call (Suc i + j) (make_prompt n (Suc i + j) (chunks ! j))
                 = Inr (texts' ! j, models' ! j)"
  proof (intro allI impI)
    fix j assume "j < length chunks"
    then have "Suc j < length (c # chunks)" by simp
    with Cons.prems(3) have "call (i + Suc j) (make_prompt n (i + Suc j) ((c # chunks) ! Suc j))
        = Inr (texts ! Suc j, models ! Suc j)" by blast
    then show "call (Suc i + j) (make_prompt n (Suc i + j) (chunks ! j)) = Inr (texts' ! j, models' ! j)"
      using t m by simp
  qed
  have "extract_chunks call n (Suc i) chunks (try_merge acc t) m
        = Inr (foldl try_merge (try_merge acc t) texts', last (m # models'))"
    using Cons.IH [OF _ _ rest] Cons.prems(1,2) t m by simp
  then show ?case using 0 t m by simp
qed

lemma extract_chunks_fails:
  "j < length chunks \<Longrightarrow> call (i + j) (make_prompt n (i + j) (chunks ! j)) = Inl err
   \<Longrightarrow> \<exists>err'. extract_chunks call n i chunks acc name = Inl err'"
proof (induction chunks arbitrary: i j acc name)
  case Nil
  then show ?case by simp
next
  case (Cons c chunks)
  show ?case
  proof (cases "call i (make_prompt n i c)")
    case (Inl e)
    then show ?thesis by simp
  next
    case (Inr r)
    obtain t m where r: "r = (t, m)" by (cases r)
    from Inr Cons.prems obtain j' where j': "j = Suc j'" by (cases j) auto
    with Cons.prems have "j' < length chunks"
      and "call (Suc i + j') (make_prompt n (Suc i + j') (chunks ! j')) = Inl err" by auto
    from Cons.IH [OF this] obtain err' where
      "extract_chunks call n (Suc i) chunks (try_merge acc t) m = Inl err'" by blast
    with Inr r show ?thesis by simp
  qed
qed

text \<open>
  C4, as stated, fails: the shape of a parsed response is not validated. A response
  whose relationships member is an object, not an array, parses; its entities are
  pushed; the push of the relationships throws (the spread of a value that is not
  iterable) and the \<^verbatim>\<open>catch\<close> of the loop logs the chunk as failed. The chunk has
  contributed an entity.
\<close>

theorem try_merge_counterexample:
  \<open>JSON_parse ''{"entities":[{"name":"Acme","type":"client"}],"relationships":{}}''
     = Some (JObj [(str ''entities'', JArr [JObj [(str ''name'', JStr (str ''Acme'')), (str ''type'', JStr (str ''client''))]]),
                   (str ''relationships'', JObj [])])
   \<and> push_field (JObj [(str ''entities'', JArr [JObj [(str ''name'', JStr (str ''Acme'')), (str ''type'', JStr (str ''client''))]]),
                      (str ''relationships'', JObj [])]) (str ''relationships'') [] = Inl TypeError
   \<and> try_merge no_results ''{"entities":[{"name":"Acme","type":"client"}],"relationships":{}}''
     = \<lparr>allEntities = [JObj [(str ''name'', JStr (str ''Acme'')), (str ''type'', JStr (str ''client''))]],
        allRelationships = [], allInsights = [], allFrontierHints = []\<rparr>\<close>
  by code_simp

text \<open>
  C4, amended. A parse failure for one chunk's response (no JSON block is found in it,
  or \<^verbatim>\<open>JSON.parse\<close> rejects the block) does not abort the extraction: that chunk
  contributes no entities, relationships, insights or frontier hints. Whatever a
  response holds, it removes nothing of what the chunks before it contributed, and
  whenever the provider answers every chunk all chunks are processed, in order.
\<close>

theorem parse_failure_is_local:
  "((json_match text = None \<or> (\<exists>m. json_match text = Some m \<and> JSON_parse m = None))
      \<longrightarrow> try_merge acc text = acc)
   \<and> prefix (allEntities acc) (allEntities (try_merge acc text))
   \<and> prefix (allRelationships acc) (allRelationships (try_merge acc text))
   \<and> prefix (allInsights acc) (allInsights (try_merge acc text))
   \<and> prefix (allFrontierHints acc) (allFrontierHints (try_merge acc text))
   \<and> (length texts = length chunks \<and> length models = length chunks
        \<and> (\<forall>j<length chunks. call (i + j) (make_prompt n (i + j) (chunks ! j))
                                 = Inr (texts ! j, models ! j))
       \<longrightarrow> extract_chunks call n i chunks acc name
             = Inr (foldl try_merge acc texts, last (name # models)))"
  using try_merge_no_match [of "text" acc] try_merge_no_parse [of "text" _ acc]
    try_merge_appends [of acc "text"]
    extract_chunks_all_answered [of texts chunks models call i n acc name]
  by blast

theorem parse_failure_is_local_witness:
  \<open>json_match ''I cannot help with that.'' = None
   \<and> try_merge no_results ''I cannot help with that.'' = no_results
   \<and> json_match ''{"entities":[{"name":"Bob",}]}'' = Some ''{"entities":[{"name":"Bob",}]}''
   \<and> JSON_parse ''{"entities":[{"name":"Bob",}]}'' = None
   \<and> try_merge no_results ''{"entities":[{"name":"Bob",}]}'' = no_results
   \<and> extract_chunks
         (\<lambda>i p. Inr ([''{"entities":[{"name":"Acme","type":"client"}]}'',
                       ''{"entities":[{"name":"Bob",}]}'',
                       ''{"entities":[{"name":"Cy","type":"person"}]}''] ! i, ''llama''))
         3 0 [''one'', ''two'', ''three''] no_results ''unknown''
       = Inr (\<lparr>allEntities = [JObj [(str ''name'', JStr (str ''Acme'')), (str ''type'', JStr (str ''client''))],
                               JObj [(str ''name'', JStr (str ''Cy'')), (str ''type'', JStr (str ''person''))]],
                allRelationships = [], allInsights = [], allFrontierHints = []\<rparr>, ''llama'')\<close>
proof -
  let ?t1 = \<open>''{"entities":[{"name":"Acme","type":"client"}]}''\<close>
  let ?t2 = \<open>''{"entities":[{"name":"Bob",}]}''\<close>
  let ?t3 = \<open>''{"entities":[{"name":"Cy","type":"person"}]}''\<close>
  let ?call = "\<lambda>(i::nat) (p::string). Inr ([?t1, ?t2, ?t3] ! i, ''llama'') :: js_error + string \<times> string"
  have a: "json_match ''I cannot help with that.'' = None" by code_simp
  have b: "json_match ?t2 = Some ?t2" by code_simp
  have c: "JSON_parse ?t2 = None" by code_simp
  have a': "try_merge no_results ''I cannot help with that.'' = no_results"
    using parse_failure_is_local [of "''I cannot help with that.''" no_results] a by blast
  have c': "try_merge no_results ?t2 = no_results"
    using parse_failure_is_local [of ?t2 no_results] b c by blast
  have hyp: "\<forall>j<length [''one'', ''two'', ''three''].
      ?call (0 + j) (make_prompt 3 (0 + j) ([''one'', ''two'', ''three''] ! j))
        = Inr ([?t1, ?t2, ?t3] ! j, [''llama'', ''llama'', ''llama''] ! j)"
    by (simp add: less_Suc_eq numeral_3_eq_3 nth_Cons')
  have loop: "extract_chunks ?call 3 0 [''one'', ''two'', ''three''] no_results ''unknown''
      = Inr (foldl try_merge no_results [?t1, ?t2, ?t3],
             last (''unknown'' # [''llama'', ''llama'', ''llama'']))"
    using parse_failure_is_local [where acc = no_results and texts = "[?t1, ?t2, ?t3]"
        and chunks = "[''one'', ''two'', ''three'']" and models = "[''llama'', ''llama'', ''llama'']"
        and call = ?call and i = 0 and n = 3 and name = "''unknown''"] hyp
    by simp
  have fold: "foldl try_merge no_results [?t1, ?t2, ?t3]
      = \<lparr>allEntities = [JObj [(str ''name'', JStr (str ''Acme'')), (str ''type'', JStr (str ''client''))],
                          JObj [(str ''name'', JStr (str ''Cy'')), (str ''type'', JStr (str ''person''))]],
           allRelationships = [], allInsights = [], allFrontierHints = []\<rparr>"
    by code_simp
  show ?thesis
    using a a' b c c' loop fold by simp
qed

subsection \<open>What each step of the materializer changes\<close>

lemma create_entities_rows:
  "create_entities p d x es store m cs = (store', m', cs')
   \<Longrightarrow> \<exists>new. db_entity store' = db_entity store @ new \<and> cs' = cs @ new
          \<and> map en_name new = map ed_name es \<and> map en_type new = map ed_type es
          \<and> map en_id new = [db_next_id store ..< db_next_id store + length es]"
proof (induction es arbitrary: store m cs)
  case Nil
  then show ?case by simp
next
  case (Cons e es)
  let ?row = "\<lparr>en_id = db_next_id store, en_projectId = p, en_documentId = d,
      en_name = ed_name e, en_type = ed_type e, en_subtype = or_null (ed_subtype e),
      en_description = or_null (ed_description e),
      en_metadata = (case ed_metadata e of None \<Rightarrow> JObj [] | Some m \<Rightarrow> m),
      en_extractedBy = x, en_territoryId = None\<rparr>"
  let ?s = "store\<lparr>db_entity := db_entity store @ [?row], db_next_id := Suc (db_next_id store)\<rparr>"
  from Cons.prems have "create_entities p d x es ?s (obj_set_id (ed_name e) (db_next_id store) m)
      (cs @ [?row]) = (store', m', cs')"
    by (simp add: Let_def)
  from Cons.IH [OF this] obtain new where
    new: "db_entity store' = db_entity ?s @ new" "cs' = (cs @ [?row]) @ new"
      "map en_name new = map ed_name es" "map en_type new = map ed_type es"
      "map en_id new = [db_next_id ?s ..< db_next_id ?s + length es]"
    by blast
  have "map en_id (?row # new) = [db_next_id store ..< db_next_id store + length (e # es)]"
    using new(5) by (simp del: upt_Suc add: upt_conv_Cons)
  with new show ?case
    by (intro exI [where x = "?row # new"]) simp
qed

lemma create_entities_frame:
  "create_entities p d x es store m cs = (store', m', cs')
   \<Longrightarrow> db_document store' = db_document store \<and> db_settings store' = db_settings store
       \<and> db_edge store' = db_edge store \<and> db_insight store' = db_insight store
       \<and> db_territory store' = db_territory store \<and> db_agent store' = db_agent store
       \<and> db_next_id store' = db_next_id store + length es"
  by (induction es arbitrary: store m cs) (auto simp: Let_def)

lemma create_edges_frame:
  "create_edges p d m rels store ces = (store', out)
   \<Longrightarrow> db_document store' = db_document store \<and> db_settings store' = db_settings store
       \<and> db_entity store' = db_entity store \<and> db_insight store' = db_insight store
       \<and> db_territory store' = db_territory store \<and> db_agent store' = db_agent store"
  by (induction p d m rels store ces rule: create_edges.induct)
     (auto simp: Let_def split: property.splits)

lemma create_insights_frame:
  "create_insights p ins store cis = (store', cis')
   \<Longrightarrow> db_document store' = db_document store \<and> db_settings store' = db_settings store
       \<and> db_entity store' = db_entity store \<and> db_edge store' = db_edge store
       \<and> db_territory store' = db_territory store \<and> db_agent store' = db_agent store"
  by (induction ins arbitrary: store cis) (auto simp: Let_def)

lemma backfill_keeps:
  "map en_name (map (\<lambda>e. if P e then e\<lparr>en_territoryId := v\<rparr> else e) xs) = map en_name xs"
  "map en_id (map (\<lambda>e. if P e then e\<lparr>en_territoryId := v\<rparr> else e) xs) = map en_id xs"
  "map en_type (map (\<lambda>e. if P e then e\<lparr>en_territoryId := v\<rparr> else e) xs) = map en_type xs"
  by (induction xs) auto

lemma create_known_territories_frame:
  "create_known_territories up p tm store cts = (store', cts')
   \<Longrightarrow> db_document store' = db_document store \<and> db_settings store' = db_settings store
       \<and> db_edge store' = db_edge store \<and> db_insight store' = db_insight store
       \<and> db_agent store' = db_agent store
       \<and> map en_name (db_entity store') = map en_name (db_entity store)
       \<and> map en_id (db_entity store') = map en_id (db_entity store)
       \<and> map en_type (db_entity store') = map en_type (db_entity store)"
proof (induction tm arbitrary: store cts)
  case Nil
  then show ?case by simp
next
  case (Cons a tm)
  obtain t ids where a: "a = (t, ids)" by (cases a)
  from Cons.prems show ?case
    unfolding a
    apply (simp add: Let_def)
    apply (drule Cons.IH)
    apply (simp add: backfill_keeps)
    done
qed

lemma create_frontier_territories_frame:
  "create_frontier_territories p hs store cts = (store', cts')
   \<Longrightarrow> db_document store' = db_document store \<and> db_settings store' = db_settings store
       \<and> db_entity store' = db_entity store \<and> db_edge store' = db_edge store
       \<and> db_insight store' = db_insight store \<and> db_agent store' = db_agent store"
  by (induction hs arbitrary: store cts) (auto simp: Let_def)

lemma create_coordinator_frame:
  "create_coordinator p ces store = (store', c)
   \<Longrightarrow> db_document store' = db_document store \<and> db_settings store' = db_settings store
       \<and> db_entity store' = db_entity store \<and> db_edge store' = db_edge store
       \<and> db_insight store' = db_insight store \<and> db_territory store' = db_territory store
       \<and> db_agent store' = db_agent store @ [c]
       \<and> ag_role c = ''coordinator'' \<and> ag_name c = str ''System Coordinator''
       \<and> ag_entitiesManaged c = length ces \<and> ag_parentAgentId c = None
       \<and> ag_id c = db_next_id store"
  by (auto simp: create_coordinator_def Let_def)

lemma create_explorers_frame:
  "create_explorers up p c tm ts store cas = (store', out)
   \<Longrightarrow> db_document store' = db_document store \<and> db_settings store' = db_settings store
       \<and> db_entity store' = db_entity store \<and> db_edge store' = db_edge store
       \<and> db_insight store' = db_insight store \<and> db_territory store' = db_territory store"
  by (induction ts arbitrary: store cas) (auto simp: Let_def split: property.splits)

lemma set_document_frame [simp]:
  "db_entity (set_document d f store) = db_entity store"
  "db_edge (set_document d f store) = db_edge store"
  "db_insight (set_document d f store) = db_insight store"
  "db_territory (set_document d f store) = db_territory store"
  "db_agent (set_document d f store) = db_agent store"
  "db_settings (set_document d f store) = db_settings store"
  "db_next_id (set_document d f store) = db_next_id store"
  by (simp_all add: set_document_def)

subsection \<open>The runs of the materializer\<close>

text \<open>
  A run ends in one of four ways: the edge loop throws, the grouping throws, the
  explorer loop throws, or the pass completes.
\<close>

lemma materialize_cases:
  obtains
    (edges_throw) s1 entityMap createdEntities s2 err where
      "create_entities p d x (entities r) store [] [] = (s1, entityMap, createdEntities)"
      "create_edges p d entityMap (relationships r) s1 [] = (s2, Inl err)"
      "materialize up p d x r store = (s2, Inl err)"
  | (grouping_throws) s1 entityMap createdEntities s2 createdEdges s3 createdInsights err where
      "create_entities p d x (entities r) store [] [] = (s1, entityMap, createdEntities)"
      "create_edges p d entityMap (relationships r) s1 [] = (s2, Inr createdEdges)"
      "create_insights p (insights r) s2 [] = (s3, createdInsights)"
      "group_by_type createdEntities [] = Inl err"
      "materialize up p d x r store = (s3, Inl err)"
  | (explorers_throw) s1 entityMap createdEntities s2 createdEdges s3 createdInsights
        territoriesMap s4 known s5 createdTerritories s6 coordinator s7 err where
      "create_entities p d x (entities r) store [] [] = (s1, entityMap, createdEntities)"
      "create_edges p d entityMap (relationships r) s1 [] = (s2, Inr createdEdges)"
      "create_insights p (insights r) s2 [] = (s3, createdInsights)"
      "group_by_type createdEntities [] = Inr territoriesMap"
      "create_known_territories up p (Object_entries territoriesMap) s3 [] = (s4, known)"
      "create_frontier_territories p (frontier_hints r) s4 known = (s5, createdTerritories)"
      "create_coordinator p createdEntities s5 = (s6, coordinator)"
      "create_explorers up p coordinator territoriesMap (majorTypes territoriesMap) s6 [coordinator]
         = (s7, Inl err)"
      "materialize up p d x r store = (s7, Inl err)"
  | (completes) s1 entityMap createdEntities s2 createdEdges s3 createdInsights
        territoriesMap s4 known s5 createdTerritories s6 coordinator s7 createdAgents where
      "create_entities p d x (entities r) store [] [] = (s1, entityMap, createdEntities)"
      "create_edges p d entityMap (relationships r) s1 [] = (s2, Inr createdEdges)"
      "create_insights p (insights r) s2 [] = (s3, createdInsights)"
      "group_by_type createdEntities [] = Inr territoriesMap"
      "create_known_territories up p (Object_entries territoriesMap) s3 [] = (s4, known)"
      "create_frontier_territories p (frontier_hints r) s4 known = (s5, createdTerritories)"
      "create_coordinator p createdEntities s5 = (s6, coordinator)"
      "create_explorers up p coordinator territoriesMap (majorTypes territoriesMap) s6 [coordinator]
         = (s7, Inr createdAgents)"
      "materialize up p d x r store
         = (set_document d
              (\<lambda>doc. doc\<lparr>doc_status := ''extracted'', doc_entityCount := length createdEntities,
                          doc_edgeCount := length createdEdges\<rparr>) s7,
            Inr \<lparr>sum_entities = length createdEntities, sum_relationships = length createdEdges,
                 sum_insights = length createdInsights,
                 sum_territories = length createdTerritories,
                 sum_agents = length createdAgents\<rparr>)"
proof -
  obtain s1 entityMap createdEntities where
    1: "create_entities p d x (entities r) store [] [] = (s1, entityMap, createdEntities)"
    by (cases "create_entities p d x (entities r) store [] []") auto
  obtain s2 out2 where 2: "create_edges p d entityMap (relationships r) s1 [] = (s2, out2)"
    by (cases "create_edges p d entityMap (relationships r) s1 []") auto
  show ?thesis
  proof (cases out2)
    case (Inl err)
    with 1 2 have "materialize up p d x r store = (s2, Inl err)"
      by (simp add: materialize_def)
    with 1 2 Inl show ?thesis by (intro edges_throw) auto
  next
    case (Inr createdEdges)
    note 2 = 2 [unfolded Inr]
    obtain s3 createdInsights where 3: "create_insights p (insights r) s2 [] = (s3, createdInsights)"
      by (cases "create_insights p (insights r) s2 []") auto
    show ?thesis
    proof (cases "group_by_type createdEntities []")
      case (Inl err)
      with 1 2 3 have "materialize up p d x r store = (s3, Inl err)"
        by (simp add: materialize_def)
      with 1 2 3 Inl show ?thesis by (intro grouping_throws) auto
    next
      case (Inr territoriesMap)
      note 4 = Inr
      obtain s4 known where
        5: "create_known_territories up p (Object_entries territoriesMap) s3 [] = (s4, known)"
        by (cases "create_known_territories up p (Object_entries territoriesMap) s3 []") auto
      obtain s5 createdTerritories where
        6: "create_frontier_territories p (frontier_hints r) s4 known = (s5, createdTerritories)"
        by (cases "create_frontier_territories p (frontier_hints r) s4 known") auto
      obtain s6 coordinator where 7: "create_coordinator p createdEntities s5 = (s6, coordinator)"
        by (cases "create_coordinator p createdEntities s5") auto
      obtain s7 out8 where
        8: "create_explorers up p coordinator territoriesMap (majorTypes territoriesMap) s6
              [coordinator] = (s7, out8)"
        by (cases "create_explorers up p coordinator territoriesMap (majorTypes territoriesMap) s6
              [coordinator]") auto
      show ?thesis
      proof (cases out8)
        case (Inl err)
        with 1 2 3 4 5 6 7 8 have "materialize up p d x r store = (s7, Inl err)"
          by (simp add: materialize_def)
        with 1 2 3 4 5 6 7 8 Inl show ?thesis by (intro explorers_throw) auto
      next
        case (Inr createdAgents)
        with 1 2 3 4 5 6 7 8 have "materialize up p d x r store
         = (set_document d
              (\<lambda>doc. doc\<lparr>doc_status := ''extracted'', doc_entityCount := length createdEntities,
                          doc_edgeCount := length createdEdges\<rparr>) s7,
            Inr \<lparr>sum_entities = length createdEntities, sum_relationships = length createdEdges,
                 sum_insights = length createdInsights,
                 sum_territories = length createdTerritories,
                 sum_agents = length createdAgents\<rparr>)"
          by (simp add: materialize_def)
        with 1 2 3 4 5 6 7 8 Inr show ?thesis by (intro completes) auto
      qed
    qed
  qed
qed

text \<open>
  C3, as stated, fails: between the merged entities and the rows stands no test of the
  name. Two merged entities named Acme give two rows named Acme.
\<close>

theorem create_entities_counterexample:
  "map en_name (db_entity (fst (materialize upper_ascii_unit ''p1'' ''d1'' ''llama''
       \<lparr>entities = [entity_named ''Acme'' ''client'', entity_named ''Acme'' ''client''],
        relationships = [], insights = [], frontier_hints = []\<rparr> (store_with None))))
   = [str ''Acme'', str ''Acme'']"
  by code_simp

text \<open>
  C3, amended. Within one extraction pass exactly one Entity row is created per merged
  entity, in the order of the merged entities: one per occurrence of a name, so that
  two merged entities of one name give two rows of that name. The rows already in the
  store are not consulted (no cross-pass identity resolution): whatever the store
  holds, the names of its Entity rows after the pass are those before it, followed by
  the names of the merged entities.
\<close>

theorem materialize_entity_rows:
  "map en_name (db_entity (fst (materialize up p d x r store)))
   = map en_name (db_entity store) @ map ed_name (entities r)"
proof (cases rule: materialize_cases [of p d x r store up])
  case (edges_throw s1 entityMap createdEntities s2 err)
  from create_entities_rows [OF edges_throw(1)] create_edges_frame [OF edges_throw(2)]
  show ?thesis unfolding edges_throw(3) by auto
next
  case (grouping_throws s1 entityMap createdEntities s2 createdEdges s3 createdInsights err)
  from create_entities_rows [OF grouping_throws(1)] create_edges_frame [OF grouping_throws(2)]
    create_insights_frame [OF grouping_throws(3)]
  show ?thesis unfolding grouping_throws(5) by auto
next
  case (explorers_throw s1 entityMap createdEntities s2 createdEdges s3 createdInsights
      territoriesMap s4 known s5 createdTerritories s6 coordinator s7 err)
  from create_entities_rows [OF explorers_throw(1)] create_edges_frame [OF explorers_throw(2)]
    create_insights_frame [OF explorers_throw(3)]
    create_known_territories_frame [OF explorers_throw(5)]
    create_frontier_territories_frame [OF explorers_throw(6)]
    create_coordinator_frame [OF explorers_throw(7)]
    create_explorers_frame [OF explorers_throw(8)]
  show ?thesis unfolding explorers_throw(9) by auto
next
  case (completes s1 entityMap createdEntities s2 createdEdges s3 createdInsights
      territoriesMap s4 known s5 createdTerritories s6 coordinator s7 createdAgents)
  from create_entities_rows [OF completes(1)] create_edges_frame [OF completes(2)]
    create_insights_frame [OF completes(3)]
    create_known_territories_frame [OF completes(5)]
    create_frontier_territories_frame [OF completes(6)]
    create_coordinator_frame [OF completes(7)]
    create_explorers_frame [OF completes(8)]
  show ?thesis unfolding completes(9) by auto
qed

subsection \<open>The name-to-id map and the edges\<close>

lemma map_of_obj_set_id:
  "map_of (obj_set_id k v m) n = (if n = k \<and> k \<noteq> str ''__proto__'' then Some v else map_of m n)"
  by (simp add: obj_set_id_def update_conv')

text \<open>
  After the entity loop the map holds, for every name of a merged entity but
  \<^verbatim>\<open>__proto__\<close>, the id of the last row created with that name.
\<close>

lemma create_entities_map:
  "create_entities p d x es store m cs = (store', m', cs')
   \<Longrightarrow> \<exists>new. cs' = cs @ new \<and> map en_name new = map ed_name es
          \<and> (\<forall>n. map_of m' n
                   = (if n \<noteq> str ''__proto__'' \<and> n \<in> set (map ed_name es)
                      then Some (en_id (last (filter (\<lambda>e. en_name e = n) new)))
                      else map_of m n))"
proof (induction es arbitrary: store m cs)
  case Nil
  then show ?case by simp
next
  case (Cons e es)
  define entity where "entity =
    \<lparr>en_id = db_next_id store, en_projectId = p, en_documentId = d,
      en_name = ed_name e, en_type = ed_type e, en_subtype = or_null (ed_subtype e),
      en_description = or_null (ed_description e),
      en_metadata = (case ed_metadata e of None \<Rightarrow> JObj [] | Some m \<Rightarrow> m),
      en_extractedBy = x, en_territoryId = None\<rparr>"
  from Cons.prems have
    "create_entities p d x es
       (store\<lparr>db_entity := db_entity store @ [entity], db_next_id := Suc (db_next_id store)\<rparr>)
       (obj_set_id (ed_name e) (en_id entity) m) (cs @ [entity]) = (store', m', cs')"
    by (simp add: Let_def entity_def)
  from Cons.IH [OF this] obtain new where
    new: "cs' = (cs @ [entity]) @ new" "map en_name new = map ed_name es"
    and m': "\<And>n. map_of m' n
               = (if n \<noteq> str ''__proto__'' \<and> n \<in> set (map ed_name es)
                  then Some (en_id (last (filter (\<lambda>e. en_name e = n) new)))
                  else map_of (obj_set_id (ed_name e) (en_id entity) m) n)"
    by blast
  have name: "en_name entity = ed_name e" by (simp add: entity_def)
  have "map_of m' n
          = (if n \<noteq> str ''__proto__'' \<and> n \<in> set (map ed_name (e # es))
             then Some (en_id (last (filter (\<lambda>e. en_name e = n) (entity # new))))
             else map_of m n)" for n
  proof (cases "n \<in> set (map ed_name es)")
    case True
    then have "n \<in> set (map en_name new)" by (metis new(2))
    then have "filter (\<lambda>e. en_name e = n) new \<noteq> []"
      by (auto simp: filter_empty_conv)
    then show ?thesis using True by (auto simp: m' map_of_obj_set_id)
  next
    case False
    then have "n \<notin> set (map en_name new)" by (metis new(2))
    then have "filter (\<lambda>e. en_name e = n) new = []"
      by (auto simp: filter_empty_conv)
    then show ?thesis using False by (auto simp: m' map_of_obj_set_id name)
  qed
  with new name show ?case by (intro exI [of _ "entity # new"]) simp
qed

text \<open>Where the last element that satisfies a test stands.\<close>

lemma last_filter_index:
  "filter P xs \<noteq> []
   \<Longrightarrow> \<exists>k<length xs. last (filter P xs) = xs ! k \<and> P (xs ! k)
         \<and> (\<forall>j<length xs. P (xs ! j) \<longrightarrow> j \<le> k)"
proof (induction xs rule: rev_induct)
  case Nil
  then show ?case by simp
next
  case (snoc y ys)
  show ?case
  proof (cases "P y")
    case True
    then show ?thesis
      by (intro exI [of _ "length ys"]) (auto simp: nth_append)
  next
    case False
    with snoc.prems have "filter P ys \<noteq> []" by simp
    from snoc.IH [OF this] obtain k where
      k: "k < length ys" "last (filter P ys) = ys ! k" "P (ys ! k)"
         "\<forall>j<length ys. P (ys ! j) \<longrightarrow> j \<le> k"
      by blast
    have "\<forall>j<length (ys @ [y]). P ((ys @ [y]) ! j) \<longrightarrow> j \<le> k"
    proof (intro allI impI)
      fix j assume j: "j < length (ys @ [y])" "P ((ys @ [y]) ! j)"
      with False have "j < length ys" by (cases "j = length ys") (auto simp: nth_append)
      with j k(4) show "j \<le> k" by (auto simp: nth_append)
    qed
    with k False show ?thesis
      by (intro exI [of _ k]) (auto simp: nth_append)
  qed
qed

lemma earlier_is_not_last:
  assumes "distinct (map f xs)" "i < j" "j < length xs" "g (xs ! i) = g (xs ! j)"
    and "filter (\<lambda>e. g e = n) xs \<noteq> []"
  shows "f (last (filter (\<lambda>e. g e = n) xs)) \<noteq> f (xs ! i)"
proof -
  from last_filter_index [OF assms(5)] obtain k where
    k: "k < length xs" "last (filter (\<lambda>e. g e = n) xs) = xs ! k" "g (xs ! k) = n"
       "\<forall>j<length xs. g (xs ! j) = n \<longrightarrow> j \<le> k"
    by blast
  have "k \<noteq> i"
  proof
    assume "k = i"
    with k(3) assms(4) have "g (xs ! j) = n" by simp
    with k(4) assms(3) have "j \<le> k" by blast
    with \<open>k = i\<close> assms(2) show False by simp
  qed
  moreover from assms(2,3) have "i < length xs" by simp
  ultimately have "map f xs ! k \<noteq> map f xs ! i"
    using assms(1) k(1) by (simp only: nth_eq_iff_index_eq length_map not_False_eq_True)
  with k(1,2) \<open>i < length xs\<close> show ?thesis by simp
qed

text \<open>
  The edge loop appends rows to the table of edges, and every row it appends comes
  from a relationship both of whose names the map holds.
\<close>

lemma create_edges_rows:
  "create_edges p d m rels store ces = (store', out)
   \<Longrightarrow> \<exists>new. db_edge store' = db_edge store @ new
          \<and> (\<forall>ces'. out = Inr ces' \<longrightarrow> ces' = ces @ new)
          \<and> (\<forall>edge\<in>set new. \<exists>rel\<in>set rels.
                 map_of m (rd_source rel) = Some (eg_sourceId edge)
                 \<and> map_of m (rd_target rel) = Some (eg_targetId edge))"
proof (induction rels arbitrary: store ces)
  case Nil
  then show ?case by auto
next
  case (Cons rel rels)
  show ?case
  proof (cases "\<exists>s t. obj_get m (rd_source rel) = Own s \<and> obj_get m (rd_target rel) = Own t")
    case True
    then obtain s t where st: "obj_get m (rd_source rel) = Own s" "obj_get m (rd_target rel) = Own t"
      by blast
    define edge where "edge =
      \<lparr>eg_id = db_next_id store, eg_projectId = p, eg_sourceId = s, eg_targetId = t,
        eg_label = rd_label rel,
        eg_weight = (if rd_weight rel = 0 then 1 else rd_weight rel), eg_documentId = d\<rparr>"
    from Cons.prems st have
      "create_edges p d m rels
         (store\<lparr>db_edge := db_edge store @ [edge], db_next_id := Suc (db_next_id store)\<rparr>)
         (ces @ [edge]) = (store', out)"
      by (simp add: Let_def edge_def)
    from Cons.IH [OF this] obtain new where
      new: "db_edge store' = (db_edge store @ [edge]) @ new"
        "\<forall>ces'. out = Inr ces' \<longrightarrow> ces' = (ces @ [edge]) @ new"
        "\<forall>edge\<in>set new. \<exists>rel\<in>set rels.
            map_of m (rd_source rel) = Some (eg_sourceId edge)
            \<and> map_of m (rd_target rel) = Some (eg_targetId edge)"
      by auto
    from st have "map_of m (rd_source rel) = Some (eg_sourceId edge)"
      "map_of m (rd_target rel) = Some (eg_targetId edge)"
      by (auto simp: obj_get_def edge_def split: option.splits if_splits)
    with new show ?thesis by (intro exI [of _ "edge # new"]) auto
  next
    case False
    show ?thesis
    proof (cases "obj_get m (rd_source rel) = Undefined \<or> obj_get m (rd_target rel) = Undefined")
      case True
      with Cons.prems have "create_edges p d m rels store ces = (store', out)"
        by (auto split: property.splits)
      from Cons.IH [OF this] show ?thesis by auto
    next
      case no: False
      with False Cons.prems have "store' = store" "out = Inl PrismaClientValidationError"
        by (auto split: property.splits)
      then show ?thesis by simp
    qed
  qed
qed

text \<open>
  When no endpoint reads an inherited value the loop completes, and its rows are
  those of the relationships both of whose names the map holds, in their order: the
  others are dropped.
\<close>

lemma create_edges_drops:
  "\<forall>rel\<in>set rels. obj_get m (rd_source rel) \<noteq> Inherited \<and> obj_get m (rd_target rel) \<noteq> Inherited
   \<Longrightarrow> \<exists>store' new. create_edges p d m rels store ces = (store', Inr (ces @ new))
          \<and> db_edge store' = db_edge store @ new
          \<and> map (\<lambda>e. (eg_sourceId e, eg_targetId e, eg_label e)) new
              = map (\<lambda>rel. (the (map_of m (rd_source rel)), the (map_of m (rd_target rel)),
                             rd_label rel))
                  (filter (\<lambda>rel. map_of m (rd_source rel) \<noteq> None
                                 \<and> map_of m (rd_target rel) \<noteq> None) rels)"
proof (induction rels arbitrary: store ces)
  case Nil
  then show ?case by simp
next
  case (Cons rel rels)
  then have rest: "\<forall>rel\<in>set rels. obj_get m (rd_source rel) \<noteq> Inherited
                                   \<and> obj_get m (rd_target rel) \<noteq> Inherited"
    and this_rel: "obj_get m (rd_source rel) \<noteq> Inherited" "obj_get m (rd_target rel) \<noteq> Inherited"
    by simp_all
  show ?case
  proof (cases "map_of m (rd_source rel) \<noteq> None \<and> map_of m (rd_target rel) \<noteq> None")
    case True
    then obtain s t where st: "map_of m (rd_source rel) = Some s" "map_of m (rd_target rel) = Some t"
      by auto
    define edge where "edge =
      \<lparr>eg_id = db_next_id store, eg_projectId = p, eg_sourceId = s, eg_targetId = t,
        eg_label = rd_label rel,
        eg_weight = (if rd_weight rel = 0 then 1 else rd_weight rel), eg_documentId = d\<rparr>"
    define store1 where
      "store1 = store\<lparr>db_edge := db_edge store @ [edge], db_next_id := Suc (db_next_id store)\<rparr>"
    from st have step: "create_edges p d m (rel # rels) store ces
        = create_edges p d m rels store1 (ces @ [edge])"
      by (simp add: Let_def edge_def store1_def obj_get_def)
    from Cons.IH [OF rest, of store1 "ces @ [edge]"] obtain store' new where
      new: "create_edges p d m rels store1 (ces @ [edge]) = (store', Inr ((ces @ [edge]) @ new))"
        "db_edge store' = db_edge store1 @ new"
        "map (\<lambda>e. (eg_sourceId e, eg_targetId e, eg_label e)) new
              = map (\<lambda>rel. (the (map_of m (rd_source rel)), the (map_of m (rd_target rel)),
                             rd_label rel))
                  (filter (\<lambda>rel. map_of m (rd_source rel) \<noteq> None
                                 \<and> map_of m (rd_target rel) \<noteq> None) rels)"
      by blast
    from new st True show ?thesis
      unfolding step
      by (intro exI [of _ store'] exI [of _ "edge # new"]) (simp add: store1_def edge_def)
  next
    case False
    with this_rel have "obj_get m (rd_source rel) = Undefined \<or> obj_get m (rd_target rel) = Undefined"
      by (auto simp: obj_get_def split: option.splits if_splits)
    then have step: "create_edges p d m (rel # rels) store ces = create_edges p d m rels store ces"
      by (auto split: property.splits)
    from False have "filter (\<lambda>rel. map_of m (rd_source rel) \<noteq> None
                                 \<and> map_of m (rd_target rel) \<noteq> None) (rel # rels)
        = filter (\<lambda>rel. map_of m (rd_source rel) \<noteq> None
                                 \<and> map_of m (rd_target rel) \<noteq> None) rels"
      by simp
    with Cons.IH [OF rest, of store ces] show ?thesis
      unfolding step by (simp only:)
  qed
qed
text \<open>
  C10. When merged entities of one pass share a name, each is persisted as a row of
  its own (the rows created are the merged entities, in order, with distinct ids),
  but the name-to-id map holds under a name nothing but the id of the row created
  last with that name (and it holds that id for every name of a merged entity but
  \<^verbatim>\<open>__proto__\<close>, which an assignment never makes an own property). So every edge the
  pass creates comes from a relationship and joins the last-created rows named by
  its source and by its target, and a row followed by a later row of the same name
  is the endpoint of no edge of the pass.
\<close>

theorem last_created_entity_wins:
  assumes "create_entities p d x es store [] [] = (s1, entityMap, createdEntities)"
    and "create_edges p d entityMap rels s1 [] = (s2, out)"
  shows "db_entity s2 = db_entity store @ createdEntities
    \<and> map en_name createdEntities = map ed_name es
    \<and> distinct (map en_id createdEntities)
    \<and> (\<forall>n i. map_of entityMap n = Some i
            \<longrightarrow> filter (\<lambda>e. en_name e = n) createdEntities \<noteq> []
                \<and> i = en_id (last (filter (\<lambda>e. en_name e = n) createdEntities)))
    \<and> (\<forall>n. n \<noteq> str ''__proto__'' \<and> n \<in> set (map ed_name es)
            \<longrightarrow> map_of entityMap n
                  = Some (en_id (last (filter (\<lambda>e. en_name e = n) createdEntities))))
    \<and> (\<exists>new. db_edge s2 = db_edge store @ new
          \<and> (\<forall>createdEdges. out = Inr createdEdges \<longrightarrow> createdEdges = new)
          \<and> (\<forall>edge\<in>set new. \<exists>rel\<in>set rels.
                 filter (\<lambda>e. en_name e = rd_source rel) createdEntities \<noteq> []
               \<and> filter (\<lambda>e. en_name e = rd_target rel) createdEntities \<noteq> []
               \<and> eg_sourceId edge
                   = en_id (last (filter (\<lambda>e. en_name e = rd_source rel) createdEntities))
               \<and> eg_targetId edge
                   = en_id (last (filter (\<lambda>e. en_name e = rd_target rel) createdEntities)))
          \<and> (\<forall>edge\<in>set new. \<forall>i j.
                 i < j \<and> j < length createdEntities
                 \<and> en_name (createdEntities ! i) = en_name (createdEntities ! j)
                 \<longrightarrow> eg_sourceId edge \<noteq> en_id (createdEntities ! i)
                     \<and> eg_targetId edge \<noteq> en_id (createdEntities ! i)))"
proof -
  from create_entities_rows [OF assms(1)] have
    rows: "db_entity s1 = db_entity store @ createdEntities"
      "map en_id createdEntities = [db_next_id store ..< db_next_id store + length es]"
    by auto
  from create_entities_map [OF assms(1)] have
    names: "map en_name createdEntities = map ed_name es"
    and entityMap: "\<And>n. map_of entityMap n
        = (if n \<noteq> str ''__proto__'' \<and> n \<in> set (map ed_name es)
           then Some (en_id (last (filter (\<lambda>e. en_name e = n) createdEntities)))
           else None)"
    by auto
  from rows(2) have ids: "distinct (map en_id createdEntities)" by simp
  from create_edges_rows [OF assms(2)] obtain new where
    new: "db_edge s2 = db_edge s1 @ new" "\<forall>ces'. out = Inr ces' \<longrightarrow> ces' = new"
      "\<forall>edge\<in>set new. \<exists>rel\<in>set rels.
          map_of entityMap (rd_source rel) = Some (eg_sourceId edge)
          \<and> map_of entityMap (rd_target rel) = Some (eg_targetId edge)"
    by auto
  have held: "filter (\<lambda>e. en_name e = n) createdEntities \<noteq> []
      \<and> v = en_id (last (filter (\<lambda>e. en_name e = n) createdEntities))"
    if "map_of entityMap n = Some v" for n v
  proof -
    from that entityMap [of n] have n: "n \<in> set (map ed_name es)"
      and v: "v = en_id (last (filter (\<lambda>e. en_name e = n) createdEntities))"
      by (auto split: if_splits)
    from n have "n \<in> set (map en_name createdEntities)" by (metis names)
    then have "filter (\<lambda>e. en_name e = n) createdEntities \<noteq> []"
      by (auto simp: filter_empty_conv)
    with v show ?thesis by simp
  qed
  have joins: "\<exists>rel\<in>set rels.
        filter (\<lambda>e. en_name e = rd_source rel) createdEntities \<noteq> []
      \<and> filter (\<lambda>e. en_name e = rd_target rel) createdEntities \<noteq> []
      \<and> eg_sourceId edge = en_id (last (filter (\<lambda>e. en_name e = rd_source rel) createdEntities))
      \<and> eg_targetId edge = en_id (last (filter (\<lambda>e. en_name e = rd_target rel) createdEntities))"
    if "edge \<in> set new" for edge
  proof -
    from new(3) that obtain rel where rel: "rel \<in> set rels"
      "map_of entityMap (rd_source rel) = Some (eg_sourceId edge)"
      "map_of entityMap (rd_target rel) = Some (eg_targetId edge)"
      by blast
    from held [OF rel(2)] held [OF rel(3)] rel(1) show ?thesis by blast
  qed
  have never: "eg_sourceId edge \<noteq> en_id (createdEntities ! i)
      \<and> eg_targetId edge \<noteq> en_id (createdEntities ! i)"
    if "edge \<in> set new" "i < j" "j < length createdEntities"
      "en_name (createdEntities ! i) = en_name (createdEntities ! j)" for edge i j
  proof -
    have other: "en_id (last (filter (\<lambda>e. en_name e = n) createdEntities))
        \<noteq> en_id (createdEntities ! i)"
      if "filter (\<lambda>e. en_name e = n) createdEntities \<noteq> []" for n
      using earlier_is_not_last [OF ids \<open>i < j\<close> \<open>j < length createdEntities\<close>
          \<open>en_name (createdEntities ! i) = en_name (createdEntities ! j)\<close> that] .
    from joins [OF \<open>edge \<in> set new\<close>] show ?thesis
      by (elim bexE conjE) (simp add: other)
  qed
  from create_entities_frame [OF assms(1)] new(1)
  have edges: "db_edge s2 = db_edge store @ new" by simp
  from create_edges_frame [OF assms(2)] rows(1)
  have entities: "db_entity s2 = db_entity store @ createdEntities" by simp
  have last: "\<exists>new. db_edge s2 = db_edge store @ new
          \<and> (\<forall>createdEdges. out = Inr createdEdges \<longrightarrow> createdEdges = new)
          \<and> (\<forall>edge\<in>set new. \<exists>rel\<in>set rels.
                 filter (\<lambda>e. en_name e = rd_source rel) createdEntities \<noteq> []
               \<and> filter (\<lambda>e. en_name e = rd_target rel) createdEntities \<noteq> []
               \<and> eg_sourceId edge
                   = en_id (last (filter (\<lambda>e. en_name e = rd_source rel) createdEntities))
               \<and> eg_targetId edge
                   = en_id (last (filter (\<lambda>e. en_name e = rd_target rel) createdEntities)))
          \<and> (\<forall>edge\<in>set new. \<forall>i j.
                 i < j \<and> j < length createdEntities
                 \<and> en_name (createdEntities ! i) = en_name (createdEntities ! j)
                 \<longrightarrow> eg_sourceId edge \<noteq> en_id (createdEntities ! i)
                     \<and> eg_targetId edge \<noteq> en_id (createdEntities ! i))"
    using edges new(2) joins never by (intro exI [of _ new]) blast
  from held have only: "\<forall>n i. map_of entityMap n = Some i
      \<longrightarrow> filter (\<lambda>e. en_name e = n) createdEntities \<noteq> []
          \<and> i = en_id (last (filter (\<lambda>e. en_name e = n) createdEntities))"
    by blast
  from entityMap have holds: "\<forall>n. n \<noteq> str ''__proto__'' \<and> n \<in> set (map ed_name es)
      \<longrightarrow> map_of entityMap n
            = Some (en_id (last (filter (\<lambda>e. en_name e = n) createdEntities)))"
    by simp
  show ?thesis
    by (intro conjI entities names ids only holds last)
qed

theorem last_created_entity_wins_witness:
  "map en_name (snd (snd (create_entities ''p1'' ''d1'' ''llama''
       [entity_named ''Acme'' ''client'', entity_named ''Bob'' ''person'',
        entity_named ''Acme'' ''supplier''] (store_with None) [] [])))
     = [str ''Acme'', str ''Bob'', str ''Acme'']
   \<and> map en_id (snd (snd (create_entities ''p1'' ''d1'' ''llama''
       [entity_named ''Acme'' ''client'', entity_named ''Bob'' ''person'',
        entity_named ''Acme'' ''supplier''] (store_with None) [] []))) = [0, 1, 2]
   \<and> map_of (fst (snd (create_entities ''p1'' ''d1'' ''llama''
       [entity_named ''Acme'' ''client'', entity_named ''Bob'' ''person'',
        entity_named ''Acme'' ''supplier''] (store_with None) [] []))) (str ''Acme'') = Some 2
   \<and> map (\<lambda>e. (eg_sourceId e, eg_targetId e))
       (db_edge (fst (create_edges ''p1'' ''d1''
          (fst (snd (create_entities ''p1'' ''d1'' ''llama''
             [entity_named ''Acme'' ''client'', entity_named ''Bob'' ''person'',
              entity_named ''Acme'' ''supplier''] (store_with None) [] [])))
          [relates ''Acme'' ''Bob'']
          (fst (create_entities ''p1'' ''d1'' ''llama''
             [entity_named ''Acme'' ''client'', entity_named ''Bob'' ''person'',
              entity_named ''Acme'' ''supplier''] (store_with None) [] [])) []))) = [(2, 1)]"
proof -
  let ?es = "[entity_named ''Acme'' ''client'', entity_named ''Bob'' ''person'',
              entity_named ''Acme'' ''supplier'']"
  let ?run = "create_entities ''p1'' ''d1'' ''llama'' ?es (store_with None) [] []"
  let ?edges = "create_edges ''p1'' ''d1'' (fst (snd ?run)) [relates ''Acme'' ''Bob''] (fst ?run) []"
  have 1: "?run = (fst ?run, fst (snd ?run), snd (snd ?run))" by (simp only: prod.collapse)
  have 2: "?edges = (fst ?edges, snd ?edges)" by (simp only: prod.collapse)
  note law = last_created_entity_wins [OF 1 2]
  have names: "map ed_name ?es = [str ''Acme'', str ''Bob'', str ''Acme'']"
    by (simp add: entity_named_def)
  have acme: "str ''Acme'' \<noteq> str ''__proto__'' \<and> str ''Acme'' \<in> set (map ed_name ?es)"
    by (simp add: entity_named_def str_def)
  have a: "map en_name (snd (snd ?run)) = [str ''Acme'', str ''Bob'', str ''Acme'']"
    using law [THEN conjunct2, THEN conjunct1] by (simp only: names)
  have last: "en_id (last (filter (\<lambda>e. en_name e = str ''Acme'') (snd (snd ?run)))) = 2"
    by code_simp
  have b: "map_of (fst (snd ?run)) (str ''Acme'') = Some 2"
    using law [THEN conjunct2, THEN conjunct2, THEN conjunct2, THEN conjunct2, THEN conjunct1,
        rule_format, OF acme]
    by (simp only: last)
  have c: "map en_id (snd (snd ?run)) = [0, 1, 2]" by code_simp
  have d: "map (\<lambda>e. (eg_sourceId e, eg_targetId e)) (db_edge (fst ?edges)) = [(2, 1)]"
    by code_simp
  show ?thesis by (rule conjI [OF a conjI [OF c conjI [OF b d]]])
qed

text \<open>
  C6 holds for the names that \<^verbatim>\<open>Object.prototype\<close> does not define (lemma
  \<open>create_edges_drops\<close>), and so for its example: from the entities Acme and Bob and the
  relationship from Acme to Ghost the pass creates two entities and no edge. It fails
  for a relationship whose endpoint is a name of the prototype that no entity of the
  pass has: \<^verbatim>\<open>entityMap["constructor"]\<close> is the inherited function, the test
  \<^verbatim>\<open>sourceId && targetId\<close> holds, and \<^verbatim>\<open>prisma.edge.create\<close> is called and rejects the
  value. The relationship is not dropped: the pass ends in the \<^verbatim>\<open>catch\<close> of the handler,
  with the two entities created and no territory and no agent.
\<close>

theorem create_edges_inherited_endpoint:
  "snd (materialize upper_ascii_unit ''p1'' ''d1'' ''llama''
          \<lparr>entities = [entity_named ''Acme'' ''client'', entity_named ''Bob'' ''person''],
           relationships = [relates ''Acme'' ''Ghost''], insights = [], frontier_hints = []\<rparr>
          (store_with None))
     = Inr \<lparr>sum_entities = 2, sum_relationships = 0, sum_insights = 0, sum_territories = 2,
            sum_agents = 1\<rparr>
   \<and> obj_get [(str ''Acme'', 0::nat), (str ''Bob'', 1)] (str ''Ghost'') = Undefined
   \<and> obj_get [(str ''Acme'', 0::nat), (str ''Bob'', 1)] (str ''constructor'') = Inherited
   \<and> snd (materialize upper_ascii_unit ''p1'' ''d1'' ''llama''
          \<lparr>entities = [entity_named ''Acme'' ''client'', entity_named ''Bob'' ''person''],
           relationships = [relates ''Acme'' ''constructor''], insights = [],
           frontier_hints = []\<rparr>
          (store_with None))
     = Inl PrismaClientValidationError
   \<and> map en_name (db_entity (fst (materialize upper_ascii_unit ''p1'' ''d1'' ''llama''
          \<lparr>entities = [entity_named ''Acme'' ''client'', entity_named ''Bob'' ''person''],
           relationships = [relates ''Acme'' ''constructor''], insights = [],
           frontier_hints = []\<rparr>
          (store_with None)))) = [str ''Acme'', str ''Bob'']
   \<and> db_agent (fst (materialize upper_ascii_unit ''p1'' ''d1'' ''llama''
          \<lparr>entities = [entity_named ''Acme'' ''client'', entity_named ''Bob'' ''person''],
           relationships = [relates ''Acme'' ''constructor''], insights = [],
           frontier_hints = []\<rparr>
          (store_with None))) = []"
  by code_simp

subsection \<open>The agent hierarchy\<close>











subsection \<open>The handler\<close>

lemma js_split_paragraphs_from_plain:
  "CHR 0x0A \<notin> set p \<Longrightarrow> js_split_paragraphs_from cur p = [rev cur @ p]"
  by (induction cur p rule: js_split_paragraphs_from.induct) auto

lemma js_split_paragraphs_from_break:
  "CHR 0x0A \<notin> set p \<Longrightarrow> q \<noteq> [] \<Longrightarrow> hd q \<noteq> CHR 0x0A
   \<Longrightarrow> js_split_paragraphs_from cur (p @ CHR 0x0A # CHR 0x0A # q)
       = (rev cur @ p) # js_split_paragraphs_from [] q"
proof (induction p arbitrary: cur)
  case Nil
  then obtain q0 q' where "q = q0 # q'" "q0 \<noteq> CHR 0x0A" by (cases q) auto
  then show ?case by simp
next
  case (Cons c p)
  obtain d cs where dcs: "p @ CHR 0x0A # CHR 0x0A # q = d # cs"
    by (cases "p @ CHR 0x0A # CHR 0x0A # q") auto
  from Cons.prems have c: "c \<noteq> CHR 0x0A" by auto
  have "js_split_paragraphs_from cur ((c # p) @ CHR 0x0A # CHR 0x0A # q)
      = js_split_paragraphs_from cur (c # d # cs)" by (simp add: dcs)
  also from c have "\<dots> = js_split_paragraphs_from (c # cur) (d # cs)" by simp
  also have "\<dots> = js_split_paragraphs_from (c # cur) (p @ CHR 0x0A # CHR 0x0A # q)"
    by (simp only: dcs)
  also from Cons.prems have "\<dots> = (rev (c # cur) @ p) # js_split_paragraphs_from [] q"
    by (intro Cons.IH) simp_all
  finally show ?case by simp
qed

text \<open>Three paragraphs, any two of them too long for one chunk, are three chunks.\<close>

lemma chunk_content_three:
  assumes "CHR 0x0A \<notin> set a" "CHR 0x0A \<notin> set b" "CHR 0x0A \<notin> set c"
    and "a \<noteq> []" "b \<noteq> []" "c \<noteq> []"
    and "maxc < length a + length b + 2" "maxc < length b + length c + 2"
  shows "chunk_content maxc (a @ [CHR 0x0A, CHR 0x0A] @ b @ [CHR 0x0A, CHR 0x0A] @ c) = [a, b, c]"
proof -
  from assms have hb: "hd (b @ CHR 0x0A # CHR 0x0A # c) \<noteq> CHR 0x0A" by (cases b) auto
  from assms have hc: "hd c \<noteq> CHR 0x0A" by (cases c) auto
  have "js_split_paragraphs_from [] (a @ CHR 0x0A # CHR 0x0A # (b @ CHR 0x0A # CHR 0x0A # c))
      = (rev [] @ a) # js_split_paragraphs_from [] (b @ CHR 0x0A # CHR 0x0A # c)"
    using assms(1) hb by (intro js_split_paragraphs_from_break) simp_all
  moreover have "js_split_paragraphs_from [] (b @ CHR 0x0A # CHR 0x0A # c)
      = (rev [] @ b) # js_split_paragraphs_from [] c"
    using assms(2,6) hc by (intro js_split_paragraphs_from_break) simp_all
  moreover have "js_split_paragraphs_from [] c = [c]"
    using assms js_split_paragraphs_from_plain [of c "[]"] by simp
  ultimately have "js_split_paragraphs (a @ [CHR 0x0A, CHR 0x0A] @ b @ [CHR 0x0A, CHR 0x0A] @ c)
      = [a, b, c]"
    by (simp add: js_split_paragraphs_def)
  with assms show ?thesis by (simp add: chunk_content_def)
qed

lemma chunk_content_three_paragraphs:
  "chunk_content MAX_CONTENT_CHARS three_paragraphs
   = [replicate 60000 (CHR ''a''), replicate 60000 (CHR ''b''), replicate 60000 (CHR ''c'')]"
  unfolding three_paragraphs_def
  by (rule chunk_content_three) (simp_all add: MAX_CONTENT_CHARS_def)

text \<open>What the provider throws, \<^verbatim>\<open>callAI\<close> throws.\<close>

lemma callAI_fails:
  "service i prompt = Inl err \<Longrightarrow> \<exists>err'. callAI settings service i prompt = Inl err'"
  by (simp add: callAI_def)

text \<open>
  When the document is found and a provider is configured, a chunk whose call fails
  ends the handler in its \<^verbatim>\<open>catch\<close>: the store is the one before the request, but for
  the settings row the handler may have created and the status of the document.
\<close>

lemma POST_aborts:
  assumes doc: "find (\<lambda>d. doc_id d = docId \<and> doc_projectId d = projectId) (db_document store)
                = Some document"
    and settings: "settings = (case find (\<lambda>s. s_projectId s = projectId) (db_settings store) of
                                 Some s \<Rightarrow> s | None \<Rightarrow> default_settings projectId)"
    and provider: "s_aiProvider settings \<noteq> ''none''"
    and key: "s_aiProvider settings = ''claude''
              \<longrightarrow> truthy_string (s_claudeApiKey settings) \<or> truthy_string env_key"
    and chunks: "chunks = chunk_content MAX_CONTENT_CHARS
                            (case doc_content document of None \<Rightarrow> [] | Some c \<Rightarrow> c)"
    and j: "j < length chunks"
    and fails: "service j (make_prompt (length chunks) j (chunks ! j)) = Inl err"
  shows "\<exists>store'. POST toUpperCase env_key service projectId docId store
                    = Some (store', Json_error ''Extraction failed'' 500)
    \<and> db_entity store' = db_entity store \<and> db_edge store' = db_edge store
    \<and> db_insight store' = db_insight store \<and> db_territory store' = db_territory store
    \<and> db_agent store' = db_agent store
    \<and> db_document store'
        = map (\<lambda>d. if doc_id d = docId then d\<lparr>doc_status := ''failed''\<rparr> else d)
            (db_document store)"
proof -
  define store1 where "store1 = (case find (\<lambda>s. s_projectId s = projectId) (db_settings store) of
      Some s \<Rightarrow> store | None \<Rightarrow> store\<lparr>db_settings := db_settings store @ [default_settings projectId]\<rparr>)"
  define store2 where
    "store2 = set_document (doc_id document) (\<lambda>d. d\<lparr>doc_status := ''processing''\<rparr>) store1"
  from doc have id: "doc_id document = docId" by (auto dest: find_Some_iff [THEN iffD1])
  have "\<exists>err'. callAI settings service j (make_prompt (length chunks) j (chunks ! j)) = Inl err'"
    using fails by (rule callAI_fails)
  then obtain err' where
    "callAI settings service (0 + j) (make_prompt (length chunks) (0 + j) (chunks ! j)) = Inl err'"
    by auto
  then have "\<exists>err''. extract_chunks (callAI settings service) (length chunks) 0 chunks
                 no_results ''unknown'' = Inl err''"
    using j by (intro extract_chunks_fails [where j = j and err = err'])
  then obtain err'' where
    loop: "extract_chunks (callAI settings service) (length chunks) 0 chunks no_results ''unknown''
           = Inl err''"
    by blast
  have pair: "(case find (\<lambda>s. s_projectId s = projectId) (db_settings store) of
                 Some s \<Rightarrow> (store, s)
               | None \<Rightarrow> (store\<lparr>db_settings := db_settings store @ [default_settings projectId]\<rparr>,
                          default_settings projectId)) = (store1, settings)"
    by (simp add: store1_def settings split: option.splits)
  have "POST toUpperCase env_key service projectId docId store
        = Some (extraction_failed docId store2)"
    using provider key loop
    unfolding POST_def doc option.case pair prod.case Let_def store2_def [symmetric]
      chunks [symmetric]
    by auto
  moreover have "db_entity store2 = db_entity store" "db_edge store2 = db_edge store"
    "db_insight store2 = db_insight store" "db_territory store2 = db_territory store"
    "db_agent store2 = db_agent store"
    by (simp_all add: store2_def store1_def split: option.splits)
  moreover have "db_document (set_document docId (\<lambda>d. d\<lparr>doc_status := ''failed''\<rparr>) store2)
      = map (\<lambda>d. if doc_id d = docId then d\<lparr>doc_status := ''failed''\<rparr> else d)
          (db_document store)"
    by (auto simp: store2_def store1_def set_document_def id split: option.splits)
  ultimately show ?thesis by (simp add: extraction_failed_def)
qed

text \<open>
  C1, as stated, fails. The document \<open>three_paragraphs\<close> splits into three chunks. The
  provider answers the first and the third with an entity each and fails on the
  second with a \<^verbatim>\<open>ProviderError\<close>. The error leaves the loop (\<^verbatim>\<open>await callAI(prompt)\<close>
  stands outside the \<^verbatim>\<open>try\<close>) before any row is created, since the rows are created
  after the loop: no entity of the first chunk is materialized. The third chunk is
  never sent.
\<close>

theorem POST_counterexample:
  \<open>length (chunk_content MAX_CONTENT_CHARS three_paragraphs) = 3
   \<and> allEntities (try_merge no_results ''{"entities":[{"name":"Acme","type":"client"}]}'')
       = [JObj [(str ''name'', JStr (str ''Acme'')), (str ''type'', JStr (str ''client''))]]
   \<and> map_option snd
         (POST upper_ascii_unit None
            (\<lambda>i prompt. if i = 1 then Inl ProviderError
                         else Inr ''{"entities":[{"name":"Acme","type":"client"}]}'')
            ''p1'' ''d1'' (store_with (Some three_paragraphs)))
       = Some (Json_error ''Extraction failed'' 500)
   \<and> map_option (db_entity \<circ> fst)
         (POST upper_ascii_unit None
            (\<lambda>i prompt. if i = 1 then Inl ProviderError
                         else Inr ''{"entities":[{"name":"Acme","type":"client"}]}'')
            ''p1'' ''d1'' (store_with (Some three_paragraphs)))
       = Some []
   \<and> map_option (map doc_status \<circ> db_document \<circ> fst)
         (POST upper_ascii_unit None
            (\<lambda>i prompt. if i = 1 then Inl ProviderError
                         else Inr ''{"entities":[{"name":"Acme","type":"client"}]}'')
            ''p1'' ''d1'' (store_with (Some three_paragraphs)))
       = Some [''failed'']\<close>
proof -
  let ?service = \<open>\<lambda>(i::nat) (prompt::string). if i = 1 then Inl ProviderError
                     else Inr ''{"entities":[{"name":"Acme","type":"client"}]}''\<close>
  let ?document = "\<lparr>doc_id = ''d1'', doc_projectId = ''p1'', doc_filename = ''notes.txt'',
                     doc_content = Some three_paragraphs, doc_status = ''uploaded'',
                     doc_entityCount = 0, doc_edgeCount = 0\<rparr>"
  let ?settings = "\<lparr>s_projectId = ''p1'', s_aiProvider = ''ollama'', s_claudeApiKey = None,
                     s_ollamaUrl = ''http://localhost:11434'', s_ollamaModel = ''llama3.2'',
                     s_autoExtract = True, s_extractionDepth = ''deep''\<rparr>"
  have three: "length (chunk_content MAX_CONTENT_CHARS three_paragraphs) = 3"
    by (simp add: chunk_content_three_paragraphs)
  have parsed: \<open>allEntities (try_merge no_results ''{"entities":[{"name":"Acme","type":"client"}]}'')
       = [JObj [(str ''name'', JStr (str ''Acme'')), (str ''type'', JStr (str ''client''))]]\<close>
    by code_simp
  have "\<exists>store'. POST upper_ascii_unit None ?service ''p1'' ''d1'' (store_with (Some three_paragraphs))
                    = Some (store', Json_error ''Extraction failed'' 500)
    \<and> db_entity store' = db_entity (store_with (Some three_paragraphs))
    \<and> db_edge store' = db_edge (store_with (Some three_paragraphs))
    \<and> db_insight store' = db_insight (store_with (Some three_paragraphs))
    \<and> db_territory store' = db_territory (store_with (Some three_paragraphs))
    \<and> db_agent store' = db_agent (store_with (Some three_paragraphs))
    \<and> db_document store'
        = map (\<lambda>d. if doc_id d = ''d1'' then d\<lparr>doc_status := ''failed''\<rparr> else d)
            (db_document (store_with (Some three_paragraphs)))"
  proof (rule POST_aborts [where document = ?document and settings = ?settings and j = 1
        and err = ProviderError
        and chunks = "chunk_content MAX_CONTENT_CHARS three_paragraphs"])
    show "find (\<lambda>d. doc_id d = ''d1'' \<and> doc_projectId d = ''p1'')
            (db_document (store_with (Some three_paragraphs))) = Some ?document"
      by (simp add: store_with_def)
    show "?settings = (case find (\<lambda>s. s_projectId s = ''p1'')
                              (db_settings (store_with (Some three_paragraphs))) of
                         Some s \<Rightarrow> s | None \<Rightarrow> default_settings ''p1'')"
      by (simp add: store_with_def)
    show "s_aiProvider ?settings \<noteq> ''none''" by simp
    show "s_aiProvider ?settings = ''claude''
          \<longrightarrow> truthy_string (s_claudeApiKey ?settings) \<or> truthy_string None" by simp
    show "chunk_content MAX_CONTENT_CHARS three_paragraphs
          = chunk_content MAX_CONTENT_CHARS
              (case doc_content ?document of None \<Rightarrow> [] | Some c \<Rightarrow> c)" by simp
    show "1 < length (chunk_content MAX_CONTENT_CHARS three_paragraphs)"
      by (simp add: three)
    show "?service 1 (make_prompt (length (chunk_content MAX_CONTENT_CHARS three_paragraphs)) 1
                        (chunk_content MAX_CONTENT_CHARS three_paragraphs ! 1))
          = Inl ProviderError" by simp
  qed
  then obtain store' where
    "POST upper_ascii_unit None ?service ''p1'' ''d1'' (store_with (Some three_paragraphs))
       = Some (store', Json_error ''Extraction failed'' 500)"
    "db_entity store' = []"
    "map doc_status (db_document store') = [''failed'']"
    by (auto simp: store_with_def)
  with three parsed show ?thesis by simp
qed

text \<open>
  C1, amended. For a document whose text splits into chunks (three, say), if the
  provider call for a chunk (the second, say) fails, with a \<^verbatim>\<open>ProviderError\<close> or any
  other error, the pass is aborted: no entity, edge, insight, territory or agent is
  materialized, whatever the other chunks hold, the document's final status is
  \<^verbatim>\<open>failed\<close>, and the response is the error 500.
\<close>

theorem provider_failure_aborts:
  assumes "find (\<lambda>d. doc_id d = docId \<and> doc_projectId d = projectId) (db_document store)
           = Some document"
    and "settings = (case find (\<lambda>s. s_projectId s = projectId) (db_settings store) of
                       Some s \<Rightarrow> s | None \<Rightarrow> default_settings projectId)"
    and "s_aiProvider settings \<noteq> ''none''"
    and "s_aiProvider settings = ''claude''
         \<longrightarrow> truthy_string (s_claudeApiKey settings) \<or> truthy_string env_key"
    and "chunks = chunk_content MAX_CONTENT_CHARS
                    (case doc_content document of None \<Rightarrow> [] | Some c \<Rightarrow> c)"
    and "j < length chunks"
    and "service j (make_prompt (length chunks) j (chunks ! j)) = Inl err"
  shows "\<exists>store'. POST toUpperCase env_key service projectId docId store
                    = Some (store', Json_error ''Extraction failed'' 500)
    \<and> db_entity store' = db_entity store \<and> db_edge store' = db_edge store
    \<and> db_insight store' = db_insight store \<and> db_territory store' = db_territory store
    \<and> db_agent store' = db_agent store
    \<and> db_document store'
        = map (\<lambda>d. if doc_id d = docId then d\<lparr>doc_status := ''failed''\<rparr> else d)
            (db_document store)"
  using assms by (rule POST_aborts)

theorem provider_failure_aborts_witness:
  \<open>map_option snd
     (POST upper_ascii_unit None
        (\<lambda>i prompt. if i = 2 then Inl ProviderError
                     else Inr ''{"entities":[{"name":"Acme","type":"client"}]}'')
        ''p1'' ''d1'' (store_with (Some three_paragraphs)))
     = Some (Json_error ''Extraction failed'' 500)
   \<and> map_option (db_entity \<circ> fst)
       (POST upper_ascii_unit None
          (\<lambda>i prompt. if i = 2 then Inl ProviderError
                       else Inr ''{"entities":[{"name":"Acme","type":"client"}]}'')
          ''p1'' ''d1'' (store_with (Some three_paragraphs)))
       = Some []
   \<and> map_option (map doc_status \<circ> db_document \<circ> fst)
       (POST upper_ascii_unit None
          (\<lambda>i prompt. if i = 2 then Inl ProviderError
                       else Inr ''{"entities":[{"name":"Acme","type":"client"}]}'')
          ''p1'' ''d1'' (store_with (Some three_paragraphs)))
       = Some [''failed'']\<close>
proof -
  let ?service = \<open>\<lambda>(i::nat) (prompt::string). if i = 2 then Inl ProviderError
                     else Inr ''{"entities":[{"name":"Acme","type":"client"}]}''\<close>
  let ?document = "\<lparr>doc_id = ''d1'', doc_projectId = ''p1'', doc_filename = ''notes.txt'',
                     doc_content = Some three_paragraphs, doc_status = ''uploaded'',
                     doc_entityCount = 0, doc_edgeCount = 0\<rparr>"
  let ?settings = "\<lparr>s_projectId = ''p1'', s_aiProvider = ''ollama'', s_claudeApiKey = None,
                     s_ollamaUrl = ''http://localhost:11434'', s_ollamaModel = ''llama3.2'',
                     s_autoExtract = True, s_extractionDepth = ''deep''\<rparr>"
  have three: "length (chunk_content MAX_CONTENT_CHARS three_paragraphs) = 3"
    by (simp add: chunk_content_three_paragraphs)
  have "\<exists>store'. POST upper_ascii_unit None ?service ''p1'' ''d1'' (store_with (Some three_paragraphs))
                    = Some (store', Json_error ''Extraction failed'' 500)
    \<and> db_entity store' = db_entity (store_with (Some three_paragraphs))
    \<and> db_edge store' = db_edge (store_with (Some three_paragraphs))
    \<and> db_insight store' = db_insight (store_with (Some three_paragraphs))
    \<and> db_territory store' = db_territory (store_with (Some three_paragraphs))
    \<and> db_agent store' = db_agent (store_with (Some three_paragraphs))
    \<and> db_document store'
        = map (\<lambda>d. if doc_id d = ''d1'' then d\<lparr>doc_status := ''failed''\<rparr> else d)
            (db_document (store_with (Some three_paragraphs)))"
  proof (rule provider_failure_aborts [where document = ?document and settings = ?settings
        and j = 2 and err = ProviderError
        and chunks = "chunk_content MAX_CONTENT_CHARS three_paragraphs"])
    show "find (\<lambda>d. doc_id d = ''d1'' \<and> doc_projectId d = ''p1'')
            (db_document (store_with (Some three_paragraphs))) = Some ?document"
      by (simp add: store_with_def)
    show "?settings = (case find (\<lambda>s. s_projectId s = ''p1'')
                              (db_settings (store_with (Some three_paragraphs))) of
                         Some s \<Rightarrow> s | None \<Rightarrow> default_settings ''p1'')"
      by (simp add: store_with_def)
    show "s_aiProvider ?settings \<noteq> ''none''" by simp
    show "s_aiProvider ?settings = ''claude''
          \<longrightarrow> truthy_string (s_claudeApiKey ?settings) \<or> truthy_string None" by simp
    show "chunk_content MAX_CONTENT_CHARS three_paragraphs
          = chunk_content MAX_CONTENT_CHARS
              (case doc_content ?document of None \<Rightarrow> [] | Some c \<Rightarrow> c)" by simp
    show "2 < length (chunk_content MAX_CONTENT_CHARS three_paragraphs)"
      by (simp add: three)
    show "?service 2 (make_prompt (length (chunk_content MAX_CONTENT_CHARS three_paragraphs)) 2
                        (chunk_content MAX_CONTENT_CHARS three_paragraphs ! 2))
          = Inl ProviderError" by simp
  qed
  then obtain store' where
    "POST upper_ascii_unit None ?service ''p1'' ''d1'' (store_with (Some three_paragraphs))
       = Some (store', Json_error ''Extraction failed'' 500)"
    "db_entity store' = []"
    "map doc_status (db_document store') = [''failed'']"
    by (auto simp: store_with_def)
  then show ?thesis by simp
qed

subsection \<open>Association lists as JavaScript maps\<close>

lemma update_fresh: "k \<notin> fst ` set m \<Longrightarrow> AList.update k v m = m @ [(k, v)]"
  by (induction m) auto

lemma in_set_updateD:
  "p \<in> set (AList.update k v m) \<Longrightarrow> p = (k, v) \<or> p \<in> set m"
  by (induction m) (auto split: if_splits)

lemma map_entry_tabulate:
  "distinct ks \<Longrightarrow> AList.map_entry k f (map (\<lambda>k'. (k', F k')) ks)
     = map (\<lambda>k'. (k', if k' = k then f (F k') else F k')) ks"
  by (induction ks) auto

lemma map_of_tabulate:
  "map_of (map (\<lambda>k'. (k', F k')) ks) k = (if k \<in> set ks then Some (F k) else None)"
  by (induction ks) auto

lemma first_occurrences_snoc:
  "first_occurrences (xs @ [x])
   = (if x \<in> set xs then first_occurrences xs else first_occurrences xs @ [x])"
  by (simp add: first_occurrences_def)

lemma first_occurrences_Nil [simp]: "first_occurrences [] = []"
  by (simp add: first_occurrences_def)

lemma first_occurrences_set [simp]: "set (first_occurrences xs) = set xs"
  by (simp add: first_occurrences_def)

lemma first_occurrences_distinct [simp]: "distinct (first_occurrences xs)"
  by (simp add: first_occurrences_def)

subsection \<open>Territories\<close>

lemma groups_foldl:
  "foldl group_step [] items
   = map (\<lambda>k. (k, filter (\<lambda>t. territory_key t = k) items))
         (first_occurrences (map territory_key items))"
proof (induction items rule: rev_induct)
  case Nil
  then show ?case by (simp add: first_occurrences_def)
next
  case (snoc x xs)
  let ?k = "territory_key x"
  let ?ks = "first_occurrences (map territory_key xs)"
  let ?F = "\<lambda>k. filter (\<lambda>t. territory_key t = k) xs"
  let ?G = "map (\<lambda>k. (k, ?F k)) ?ks"
  have G: "foldl group_step [] xs = ?G" by (rule snoc.IH)
  show ?case
  proof (cases "?k \<in> set (map territory_key xs)")
    case True
    then have some: "map_of ?G ?k = Some (?F ?k)" by (simp add: map_of_tabulate)
    have "group_step ?G x = AList.map_entry ?k (\<lambda>g. g @ [x]) ?G"
      by (simp add: group_step_def Let_def some)
    also have "\<dots> = map (\<lambda>k'. (k', if k' = ?k then ?F k' @ [x] else ?F k')) ?ks"
      by (rule map_entry_tabulate) simp
    also have "\<dots> = map (\<lambda>k. (k, filter (\<lambda>t. territory_key t = k) (xs @ [x]))) ?ks"
      by (rule map_cong) auto
    finally show ?thesis using True G by (simp add: first_occurrences_snoc)
  next
    case False
    then have none: "map_of ?G ?k = None" by (simp add: map_of_tabulate)
    have fresh: "?k \<notin> fst ` set ?G" using False by (auto simp: image_iff)
    have d: "distinct (?ks @ [?k])" using False by simp
    have "group_step ?G x = AList.map_entry ?k (\<lambda>g. g @ [x]) (?G @ [(?k, [])])"
      by (simp add: group_step_def Let_def none update_fresh [OF fresh])
    also have "?G @ [(?k, [])] = map (\<lambda>k. (k, ?F k)) (?ks @ [?k])"
    proof -
      have "?F ?k = []" using False by (force simp: filter_empty_conv image_iff)
      then show ?thesis by simp
    qed
    also have "AList.map_entry ?k (\<lambda>g. g @ [x]) \<dots>
        = map (\<lambda>k'. (k', if k' = ?k then ?F k' @ [x] else ?F k')) (?ks @ [?k])"
      by (rule map_entry_tabulate [OF d])
    also have "\<dots> = map (\<lambda>k. (k, filter (\<lambda>t. territory_key t = k) (xs @ [x]))) (?ks @ [?k])"
      by (rule map_cong) auto
    finally show ?thesis using False G by (simp add: first_occurrences_snoc)
  qed
qed

lemma group_nonempty:
  "k \<in> set (map territory_key items) \<Longrightarrow> filter (\<lambda>t. territory_key t = k) items \<noteq> []"
  by (auto simp: filter_empty_conv)

lemma dedup_eq:
  "dedup items mapper
   = map (\<lambda>k. mapper (hd (filter (\<lambda>t. territory_key t = k) items))
                      (filter (\<lambda>t. territory_key t = k) items))
         (first_occurrences (map territory_key items))"
proof -
  let ?F = "\<lambda>k. filter (\<lambda>t. territory_key t = k) items"
  let ?ks = "first_occurrences (map territory_key items)"
  have "dedup items mapper
        = concat (map (\<lambda>k. case ?F k of [] \<Rightarrow> [] | first # _ \<Rightarrow> [mapper first (?F k)]) ?ks)"
    by (simp add: dedup_def groups_foldl comp_def)
  also have "\<dots> = concat (map (\<lambda>k. [mapper (hd (?F k)) (?F k)]) ?ks)"
  proof (rule arg_cong [where f = concat], rule map_cong [OF refl])
    fix k assume "k \<in> set ?ks"
    then have "?F k \<noteq> []" using group_nonempty [of k items] by simp
    then show "(case ?F k of [] \<Rightarrow> [] | first # _ \<Rightarrow> [mapper first (?F k)])
               = [mapper (hd (?F k)) (?F k)]"
      by (cases "?F k") auto
  qed
  also have "\<dots> = map (\<lambda>k. mapper (hd (?F k)) (?F k)) ?ks"
    by (induction ?ks) auto
  finally show ?thesis .
qed

lemma dedup_nth:
  assumes "i < length (first_occurrences (map territory_key items))"
  shows "\<exists>first rest.
           filter (\<lambda>t. territory_key t = first_occurrences (map territory_key items) ! i) items
             = first # rest
           \<and> dedup items mapper ! i = mapper first (first # rest)"
proof -
  let ?ks = "first_occurrences (map territory_key items)"
  let ?g = "filter (\<lambda>t. territory_key t = ?ks ! i) items"
  have "?ks ! i \<in> set ?ks" using assms by (rule nth_mem)
  then have "?g \<noteq> []" using group_nonempty [of "?ks ! i" items] by simp
  then obtain first rest where g: "?g = first # rest" by (cases ?g) auto
  have "dedup items mapper ! i = mapper (hd ?g) ?g"
    using assms by (simp add: dedup_eq)
  with g show ?thesis by simp
qed

lemma foldl_entities_concat:
  "foldl (\<lambda>m t. foldl f m (t_entities t)) m grp = foldl f m (concat (map t_entities grp))"
  by (induction grp arbitrary: m) auto

lemma entityMap_keys:
  "map fst (foldl (\<lambda>m e. AList.update (e_id e) e m) [] es) = first_occurrences (map e_id es)"
  by (induction es rule: rev_induct) (auto simp: first_occurrences_snoc update_keys)

lemma entityMap_ids:
  "p \<in> set (foldl (\<lambda>m e. AList.update (e_id e) e m) [] es) \<Longrightarrow> e_id (snd p) = fst p"
  by (induction es arbitrary: p rule: rev_induct) (auto dest!: in_set_updateD)

lemma known_mapper_entities:
  "k_entities (known_mapper first grp)
   = first_occurrences (map e_id (concat (map t_entities grp)))"
proof -
  let ?m = "foldl (\<lambda>m e. AList.update (e_id e) e m) [] (concat (map t_entities grp))"
  have "map e_id (map snd ?m) = map fst ?m"
    using entityMap_ids [of _ "concat (map t_entities grp)"] by auto
  then show ?thesis
    by (simp add: known_mapper_def Let_def foldl_entities_concat entityMap_keys)
qed

lemma known_by_key:
  "length (fst (GET_territories territories))
     = length (first_occurrences
                (map territory_key (filter (\<lambda>t. t_status t = ''known'') territories)))
   \<and> (\<forall>i<length (first_occurrences
                    (map territory_key (filter (\<lambda>t. t_status t = ''known'') territories))).
         \<exists>first rest.
           filter (\<lambda>t. territory_key t
                        = first_occurrences
                            (map territory_key
                               (filter (\<lambda>t. t_status t = ''known'') territories)) ! i)
                  (filter (\<lambda>t. t_status t = ''known'') territories) = first # rest
           \<and> k_id (fst (GET_territories territories) ! i) = t_id first
           \<and> k_name (fst (GET_territories territories) ! i) = t_name first
           \<and> k_type (fst (GET_territories territories) ! i) = t_type first
           \<and> k_status (fst (GET_territories territories) ! i) = t_status first
           \<and> k_description (fst (GET_territories territories) ! i) = t_description first
           \<and> k_entities (fst (GET_territories territories) ! i)
               = first_occurrences (map e_id (concat (map t_entities (first # rest)))))"
proof (intro conjI allI impI)
  let ?K = "filter (\<lambda>t. t_status t = ''known'') territories"
  show "length (fst (GET_territories territories))
        = length (first_occurrences (map territory_key ?K))"
    by (simp add: GET_territories_def dedup_eq)
  fix i assume i: "i < length (first_occurrences (map territory_key ?K))"
  from dedup_nth [OF i, of known_mapper]
  obtain first rest where
    g: "filter (\<lambda>t. territory_key t = first_occurrences (map territory_key ?K) ! i) ?K
         = first # rest"
    and o: "dedup ?K known_mapper ! i = known_mapper first (first # rest)"
    by blast
  have fields: "k_id (known_mapper first (first # rest)) = t_id first
      \<and> k_name (known_mapper first (first # rest)) = t_name first
      \<and> k_type (known_mapper first (first # rest)) = t_type first
      \<and> k_status (known_mapper first (first # rest)) = t_status first
      \<and> k_description (known_mapper first (first # rest)) = t_description first"
    by (simp add: known_mapper_def Let_def)
  show "\<exists>first rest.
          filter (\<lambda>t. territory_key t = first_occurrences (map territory_key ?K) ! i) ?K
            = first # rest
          \<and> k_id (fst (GET_territories territories) ! i) = t_id first
          \<and> k_name (fst (GET_territories territories) ! i) = t_name first
          \<and> k_type (fst (GET_territories territories) ! i) = t_type first
          \<and> k_status (fst (GET_territories territories) ! i) = t_status first
          \<and> k_description (fst (GET_territories territories) ! i) = t_description first
          \<and> k_entities (fst (GET_territories territories) ! i)
              = first_occurrences (map e_id (concat (map t_entities (first # rest))))"
    apply (rule exI [where x = first], rule exI [where x = rest])
    using g o fields known_mapper_entities [of first "first # rest"]
    by (simp add: GET_territories_def)
qed

lemma frontier_by_key:
  "length (snd (GET_territories territories))
     = length (first_occurrences
                (map territory_key (filter (\<lambda>t. t_status t = ''frontier'') territories)))
   \<and> (\<forall>i<length (first_occurrences
                    (map territory_key (filter (\<lambda>t. t_status t = ''frontier'') territories))).
         \<exists>first rest.
           filter (\<lambda>t. territory_key t
                        = first_occurrences
                            (map territory_key
                               (filter (\<lambda>t. t_status t = ''frontier'') territories)) ! i)
                  (filter (\<lambda>t. t_status t = ''frontier'') territories) = first # rest
           \<and> snd (GET_territories territories) ! i
               = \<lparr>f_id = t_id first, f_name = t_name first, f_type = t_type first,
                  f_status = t_status first, f_hint = t_hint first, f_risk = t_risk first,
                  f_value = t_value first, f_accessNeeded = t_accessNeeded first\<rparr>)"
proof (intro conjI allI impI)
  let ?F = "filter (\<lambda>t. t_status t = ''frontier'') territories"
  show "length (snd (GET_territories territories))
        = length (first_occurrences (map territory_key ?F))"
    by (simp add: GET_territories_def dedup_eq)
  fix i assume i: "i < length (first_occurrences (map territory_key ?F))"
  from dedup_nth [OF i, of frontier_mapper]
  obtain first rest where
    g: "filter (\<lambda>t. territory_key t = first_occurrences (map territory_key ?F) ! i) ?F
         = first # rest"
    and o: "dedup ?F frontier_mapper ! i = frontier_mapper first (first # rest)"
    by blast
  show "\<exists>first rest.
          filter (\<lambda>t. territory_key t = first_occurrences (map territory_key ?F) ! i) ?F
            = first # rest
          \<and> snd (GET_territories territories) ! i
              = \<lparr>f_id = t_id first, f_name = t_name first, f_type = t_type first,
                 f_status = t_status first, f_hint = t_hint first, f_risk = t_risk first,
                 f_value = t_value first, f_accessNeeded = t_accessNeeded first\<rparr>"
    apply (rule exI [where x = first], rule exI [where x = rest])
    using g o by (simp add: GET_territories_def frontier_mapper_def)
qed

text \<open>
  The key of a row the extraction route wrote determines its name, type and status.
  For a known row the key is \<open>capitalize type @ | @ type @ |known\<close>; the upper case
  of a code unit has at most three code units, and holds the character \<open>|\<close> only when
  it is the upper case of \<open>|\<close> itself.
\<close>

lemma length_capitalize:
  "length (capitalize up s) = (case s of [] \<Rightarrow> 0 | c # cs \<Rightarrow> length (up c) + length cs)"
  by (simp add: capitalize_def split: list.splits)

lemma capitalize_key_shorter:
  assumes up3: "\<forall>c. length (up c) \<le> 3"
    and bar: "\<forall>c. c \<noteq> CHR ''|'' \<longrightarrow> CHR ''|'' \<notin> set (up c)"
    and upbar: "up (CHR ''|'') = ''|''"
    and eq: "capitalize up a @ ''|'' @ a = capitalize up b @ ''|'' @ b"
    and len: "length a < length b"
  shows False
proof -
  from eq have "(capitalize up a @ ''|'') @ a = (capitalize up b @ ''|'') @ b" by simp
  then obtain us where
    "capitalize up a @ ''|'' = (capitalize up b @ ''|'') @ us \<and> us @ a = b
     \<or> (capitalize up a @ ''|'') @ us = capitalize up b @ ''|'' \<and> a = us @ b"
    unfolding append_eq_append_conv2 by blast
  with len have us: "capitalize up a @ ''|'' = (capitalize up b @ ''|'') @ us" "b = us @ a"
    by auto
  from us(2) len have usne: "0 < length us" by auto
  from us(1) have "length (capitalize up a @ ''|'') = length ((capitalize up b @ ''|'') @ us)"
    by (rule arg_cong)
  then have l1: "length (capitalize up a) = length (capitalize up b) + length us" by simp
  from len have "b \<noteq> []" by auto
  then obtain b0 bs where b: "b = b0 # bs" by (cases b) auto
  then have l2: "length (capitalize up b) = length (up b0) + length bs"
    by (simp add: length_capitalize)
  from us(2) have "length b = length (us @ a)" by (rule arg_cong)
  with b have l3: "Suc (length bs) = length us + length a" by simp
  have l4: "length (capitalize up a) \<le> length a + 2"
  proof (cases a)
    case Nil
    then show ?thesis by (simp add: length_capitalize)
  next
    case (Cons a0 as)
    with up3 [rule_format, of a0] show ?thesis by (simp add: length_capitalize)
  qed
  from l1 l2 l3 l4 usne have "length us = 1" by linarith
  then obtain c where c: "us = [c]" by (cases us) auto
  with us(1) have "capitalize up a @ [CHR ''|''] = (capitalize up b @ ''|'') @ [c]" by simp
  then have capa: "capitalize up a = capitalize up b @ ''|''" and cbar: "CHR ''|'' = c"
    by (simp_all only: append1_eq_conv)
  from us(2) c cbar have b': "b = CHR ''|'' # a" by simp
  with upbar have "capitalize up b = ''|'' @ a" by (simp add: capitalize_def)
  with capa have capa': "capitalize up a = ''|'' @ a @ ''|''" by simp
  show False
  proof (cases a)
    case Nil
    with capa' show False by (simp add: capitalize_def)
  next
    case (Cons a0 as)
    with capa' have e: "up a0 @ as = CHR ''|'' # a0 # as @ ''|''" by (simp add: capitalize_def)
    then have "length (up a0 @ as) = length (CHR ''|'' # a0 # as @ ''|'')" by (rule arg_cong)
    then have "length (up a0) = 3" by simp
    then obtain x y z where xyz: "up a0 = [x, y, z]"
      by (auto simp: length_Suc_conv numeral_3_eq_3)
    with e have "x = CHR ''|''" by simp
    with xyz have "CHR ''|'' \<in> set (up a0)" by simp
    with bar have "a0 = CHR ''|''" by blast
    with upbar xyz show False by simp
  qed
qed

lemma capitalize_key_inj:
  assumes "\<forall>c. length (up c) \<le> 3"
    and "\<forall>c. c \<noteq> CHR ''|'' \<longrightarrow> CHR ''|'' \<notin> set (up c)"
    and "up (CHR ''|'') = ''|''"
    and eq: "capitalize up a @ ''|'' @ a = capitalize up b @ ''|'' @ b"
  shows "a = b"
proof -
  consider "length a < length b" | "length b < length a" | "length a = length b"
    by linarith
  then show ?thesis
  proof cases
    case 1
    with capitalize_key_shorter [OF assms(1-3) eq] show ?thesis by blast
  next
    case 2
    with capitalize_key_shorter [OF assms(1-3) eq [symmetric]] show ?thesis by blast
  next
    case 3
    from eq have "(capitalize up a @ ''|'') @ a = (capitalize up b @ ''|'') @ b" by simp
    with 3 show ?thesis by (metis append_eq_append_conv)
  qed
qed

lemma territory_key_exact:
  assumes "\<forall>c. length (up c) \<le> 3"
    and "\<forall>c. c \<noteq> CHR ''|'' \<longrightarrow> CHR ''|'' \<notin> set (up c)"
    and "up (CHR ''|'') = ''|''"
    and t: "written_by_extraction up t" and t': "written_by_extraction up t'"
    and status: "t_status t = t_status t'"
  shows "territory_key t = territory_key t'
         \<longleftrightarrow> (t_name t, t_type t, t_status t) = (t_name t', t_type t', t_status t')"
proof
  assume eq: "territory_key t = territory_key t'"
  then have eq': "(t_name t @ ''|'' @ t_type t) @ (''|'' @ t_status t)
      = (t_name t' @ ''|'' @ t_type t') @ (''|'' @ t_status t')"
    by (simp add: territory_key_def)
  with status have front: "t_name t @ ''|'' @ t_type t = t_name t' @ ''|'' @ t_type t'"
    by (simp only: append_same_eq)
  show "(t_name t, t_type t, t_status t) = (t_name t', t_type t', t_status t')"
  proof (cases "t_status t = ''known''")
    case True
    with t t' status have n: "t_name t = capitalize up (t_type t)"
      "t_name t' = capitalize up (t_type t')"
      by (auto simp: written_by_extraction_def)
    with front have "t_type t = t_type t'"
      using capitalize_key_inj [OF assms(1-3), of "t_type t" "t_type t'"] by simp
    with n status show ?thesis by simp
  next
    case False
    with t t' status have "t_type t = ''frontier''" "t_type t' = ''frontier''"
      by (auto simp: written_by_extraction_def)
    with front status show ?thesis by simp
  qed
next
  assume "(t_name t, t_type t, t_status t) = (t_name t', t_type t', t_status t')"
  then show "territory_key t = territory_key t'" by (simp add: territory_key_def)
qed

text \<open>
  Two functions that identify the same elements of a list cut it into the same
  groups, in the same order.
\<close>

lemma remdups_map_inj_on:
  "inj_on h (set ys) \<Longrightarrow> remdups (map h ys) = map h (remdups ys)"
  by (induction ys) (auto simp: inj_on_def)

lemma first_occurrences_map_inj_on:
  "inj_on h (set ys) \<Longrightarrow> first_occurrences (map h ys) = map h (first_occurrences ys)"
proof -
  assume "inj_on h (set ys)"
  then have "remdups (map h (rev ys)) = map h (remdups (rev ys))"
    by (intro remdups_map_inj_on) simp
  then show ?thesis by (simp add: first_occurrences_def rev_map)
qed

lemma same_groups:
  assumes "\<forall>x\<in>set xs. \<forall>y\<in>set xs. (f x = f y) = (g x = g y)"
  shows "length (first_occurrences (map g xs)) = length (first_occurrences (map f xs))
    \<and> (\<forall>i<length (first_occurrences (map f xs)).
          filter (\<lambda>t. g t = first_occurrences (map g xs) ! i) xs
          = filter (\<lambda>t. f t = first_occurrences (map f xs) ! i) xs)"
proof -
  define h where "h k = g (SOME x. x \<in> set xs \<and> f x = k)" for k
  have h: "g x = h (f x)" if "x \<in> set xs" for x
  proof -
    from that have "(SOME y. y \<in> set xs \<and> f y = f x) \<in> set xs
        \<and> f (SOME y. y \<in> set xs \<and> f y = f x) = f x"
      by (intro someI [of "\<lambda>y. y \<in> set xs \<and> f y = f x" x]) simp
    with assms that show ?thesis unfolding h_def by metis
  qed
  have inj: "inj_on h (set (map f xs))"
  proof (rule inj_onI)
    fix k k' assume "k \<in> set (map f xs)" "k' \<in> set (map f xs)" and e: "h k = h k'"
    then obtain x x' where x: "x \<in> set xs" "k = f x" "x' \<in> set xs" "k' = f x'" by auto
    with e h have "g x = g x'" by simp
    with assms x show "k = k'" by blast
  qed
  have "map g xs = map h (map f xs)" using h by simp
  then have "first_occurrences (map g xs) = first_occurrences (map h (map f xs))"
    by (simp only:)
  also have "\<dots> = map h (first_occurrences (map f xs))"
    by (rule first_occurrences_map_inj_on [OF inj])
  finally have fo: "first_occurrences (map g xs) = map h (first_occurrences (map f xs))" .
  have "filter (\<lambda>t. g t = first_occurrences (map g xs) ! i) xs
      = filter (\<lambda>t. f t = first_occurrences (map f xs) ! i) xs"
    if i: "i < length (first_occurrences (map f xs))" for i
  proof (rule filter_cong [OF refl])
    fix t assume t: "t \<in> set xs"
    from i have "first_occurrences (map f xs) ! i \<in> set (first_occurrences (map f xs))"
      by (rule nth_mem)
    then have k: "first_occurrences (map f xs) ! i \<in> set (map f xs)" by simp
    from t have ft: "f t \<in> set (map f xs)" by simp
    from i fo have "first_occurrences (map g xs) ! i = h (first_occurrences (map f xs) ! i)"
      by simp
    with h [OF t] inj k ft
    show "(g t = first_occurrences (map g xs) ! i) = (f t = first_occurrences (map f xs) ! i)"
      by (auto simp: inj_on_def)
  qed
  with fo show ?thesis by simp
qed

lemma upper_ascii_ok:
  "(\<forall>c. length (upper_ascii c) \<le> 3)
   \<and> (\<forall>c. c \<noteq> CHR ''|'' \<longrightarrow> CHR ''|'' \<notin> set (upper_ascii c))
   \<and> upper_ascii (CHR ''|'') = ''|''"
proof (intro conjI allI impI)
  fix c :: char
  show "length (upper_ascii c) \<le> 3" by (simp add: upper_ascii_def)
  assume c: "c \<noteq> CHR ''|''"
  show "CHR ''|'' \<notin> set (upper_ascii c)"
  proof
    assume "CHR ''|'' \<in> set (upper_ascii c)"
    with c have r: "97 \<le> code c" "code c \<le> 122" and "char_of (code c - 32) = CHR ''|''"
      by (auto simp: upper_ascii_def split: if_splits)
    then have "of_char (char_of (code c - 32) :: char) = (of_char (CHR ''|'') :: nat)" by simp
    with r show False by (simp add: code_def)
  qed
next
  show "upper_ascii (CHR ''|'') = ''|''" by (simp add: upper_ascii_def code_def)
qed

text \<open>
  C8. On the Territory rows of a project, which the extraction route wrote, read-time
  reconciliation groups the known rows, and likewise the frontier rows, by exact
  (name, type, status). It exposes exactly one territory per group, in the order in
  which the groups first occur; the id, name, type, status and description of a known
  territory (the id, name, type, status, hint, risk, value and access needed of a
  frontier one) are those of the first row of its group, and its member ids are those
  of the rows of the group, each once, in the order of first occurrence. Two known
  rows named \<open>Person\<close> of type \<open>person\<close> with members e1, e2 and e2, e3 give one
  territory with e1, e2, e3.
\<close>

theorem GET_territories_reconciles:
  assumes "\<forall>c. length (toUpperCase c) \<le> 3"
    and "\<forall>c. c \<noteq> CHR ''|'' \<longrightarrow> CHR ''|'' \<notin> set (toUpperCase c)"
    and "toUpperCase (CHR ''|'') = ''|''"
    and written: "\<forall>t\<in>set territories. written_by_extraction toUpperCase t"
  shows "(let known_rows = filter (\<lambda>t. t_status t = ''known'') territories;
        groups = first_occurrences (map (\<lambda>t. (t_name t, t_type t, t_status t)) known_rows);
        known = fst (GET_territories territories)
    in length known = length groups
       \<and> (\<forall>i<length groups. \<exists>first rest.
             filter (\<lambda>t. (t_name t, t_type t, t_status t) = groups ! i) known_rows
               = first # rest
             \<and> k_id (known ! i) = t_id first \<and> k_name (known ! i) = t_name first
             \<and> k_type (known ! i) = t_type first \<and> k_status (known ! i) = t_status first
             \<and> k_description (known ! i) = t_description first
             \<and> k_entities (known ! i)
                 = first_occurrences (map e_id (concat (map t_entities (first # rest))))))
   \<and> (let frontier_rows = filter (\<lambda>t. t_status t = ''frontier'') territories;
           groups = first_occurrences
                      (map (\<lambda>t. (t_name t, t_type t, t_status t)) frontier_rows);
           frontier = snd (GET_territories territories)
       in length frontier = length groups
          \<and> (\<forall>i<length groups. \<exists>first rest.
                filter (\<lambda>t. (t_name t, t_type t, t_status t) = groups ! i) frontier_rows
                  = first # rest
                \<and> frontier ! i
                    = \<lparr>f_id = t_id first, f_name = t_name first, f_type = t_type first,
                       f_status = t_status first, f_hint = t_hint first, f_risk = t_risk first,
                       f_value = t_value first, f_accessNeeded = t_accessNeeded first\<rparr>))"
proof -
  let ?tri = "\<lambda>t. (t_name t, t_type t, t_status t)"
  have same: "\<forall>x\<in>set (filter (\<lambda>t. t_status t = s) territories).
              \<forall>y\<in>set (filter (\<lambda>t. t_status t = s) territories).
                (territory_key x = territory_key y) = (?tri x = ?tri y)" for s
    using territory_key_exact [OF assms(1-3)] written by simp
  note K = same_groups [OF same [of "''known''"]]
  note F = same_groups [OF same [of "''frontier''"]]
  from known_by_key [of territories] K
  have known: "let known_rows = filter (\<lambda>t. t_status t = ''known'') territories;
        groups = first_occurrences (map ?tri known_rows);
        known = fst (GET_territories territories)
    in length known = length groups
       \<and> (\<forall>i<length groups. \<exists>first rest.
             filter (\<lambda>t. ?tri t = groups ! i) known_rows = first # rest
             \<and> k_id (known ! i) = t_id first \<and> k_name (known ! i) = t_name first
             \<and> k_type (known ! i) = t_type first \<and> k_status (known ! i) = t_status first
             \<and> k_description (known ! i) = t_description first
             \<and> k_entities (known ! i)
                 = first_occurrences (map e_id (concat (map t_entities (first # rest)))))"
    unfolding Let_def by simp
  from frontier_by_key [of territories] F
  have frontier: "let frontier_rows = filter (\<lambda>t. t_status t = ''frontier'') territories;
           groups = first_occurrences (map ?tri frontier_rows);
           frontier = snd (GET_territories territories)
       in length frontier = length groups
          \<and> (\<forall>i<length groups. \<exists>first rest.
                filter (\<lambda>t. ?tri t = groups ! i) frontier_rows = first # rest
                \<and> frontier ! i
                    = \<lparr>f_id = t_id first, f_name = t_name first, f_type = t_type first,
                       f_status = t_status first, f_hint = t_hint first, f_risk = t_risk first,
                       f_value = t_value first, f_accessNeeded = t_accessNeeded first\<rparr>)"
    unfolding Let_def by simp
  from known frontier show ?thesis by (rule conjI)
qed

theorem GET_territories_reconciles_witness:
  "written_by_extraction upper_ascii person_row1
   \<and> written_by_extraction upper_ascii person_row2
   \<and> length (fst (GET_territories [person_row1, person_row2])) = 1
   \<and> k_id (fst (GET_territories [person_row1, person_row2]) ! 0) = ''t1''
   \<and> k_name (fst (GET_territories [person_row1, person_row2]) ! 0) = ''Person''
   \<and> k_type (fst (GET_territories [person_row1, person_row2]) ! 0) = ''person''
   \<and> k_status (fst (GET_territories [person_row1, person_row2]) ! 0) = ''known''
   \<and> k_entities (fst (GET_territories [person_row1, person_row2]) ! 0) = [''e1'', ''e2'', ''e3'']
   \<and> snd (GET_territories [person_row1, person_row2]) = []"
proof -
  have w: "\<forall>t\<in>set [person_row1, person_row2]. written_by_extraction upper_ascii t"
    by code_simp
  note ok = upper_ascii_ok
  from GET_territories_reconciles [OF ok [THEN conjunct1] ok [THEN conjunct2, THEN conjunct1]
      ok [THEN conjunct2, THEN conjunct2] w] w
  show ?thesis
    by (simp add: GET_territories_def dedup_def group_step_def territory_key_def
        known_mapper_def person_row1_def person_row2_def)
qed

subsection \<open>Agents\<close>

lemma agent_key_merge_into: "agent_key (merge_into Date e a) = agent_key e"
  by (simp add: merge_into_def agent_key_def Let_def)

lemma keyed_update:
  "keyed m \<Longrightarrow> agent_key a = k \<Longrightarrow> keyed (AList.update k a m)"
  unfolding keyed_def
  by (auto simp: distinct_update dest!: in_set_updateD)

lemma keyed_step: "keyed m \<Longrightarrow> keyed (dedup_step Date m a)"
  by (auto simp: dedup_step_def Let_def agent_key_merge_into keyed_def [of m]
          intro!: keyed_update split: option.splits dest!: map_of_SomeD)

lemma keyed_foldl: "keyed m \<Longrightarrow> keyed (foldl (dedup_step Date) m xs)"
  by (induction xs arbitrary: m) (auto simp: keyed_step)

lemma foldl_fresh:
  "distinct (map agent_key xs) \<Longrightarrow> agent_key ` set xs \<inter> fst ` set m = {}
   \<Longrightarrow> foldl (dedup_step Date) m xs = m @ map (\<lambda>a. (agent_key a, a)) xs"
proof (induction xs arbitrary: m)
  case Nil
  then show ?case by simp
next
  case (Cons x xs)
  have fresh: "agent_key x \<notin> fst ` set m" using Cons.prems(2) by auto
  then have none: "map_of m (agent_key x) = None" by (simp add: map_of_eq_None_iff)
  have step: "dedup_step Date m x = m @ [(agent_key x, x)]"
    by (simp add: dedup_step_def Let_def none update_fresh [OF fresh])
  have "agent_key ` set xs \<inter> fst ` set (m @ [(agent_key x, x)]) = {}"
    using Cons.prems by auto
  with Cons.IH [of "m @ [(agent_key x, x)]"] Cons.prems(1) step show ?case by simp
qed

text \<open>
  C9. The agent merge of the tree view is idempotent: for every list of Agent rows (and
  every reading of the date strings), merging the merged rows again returns them
  unchanged, each group having become a single row.
\<close>

theorem deduplicateAgents_idempotent:
  "deduplicateAgents Date (deduplicateAgents Date agents) = deduplicateAgents Date agents"
proof -
  let ?m = "foldl (dedup_step Date) [] agents"
  have k: "keyed ?m" by (rule keyed_foldl) (simp add: keyed_def)
  then have keys: "map agent_key (map snd ?m) = map fst ?m"
    by (auto simp: keyed_def)
  have d: "distinct (map agent_key (map snd ?m))"
    unfolding keys using k by (simp only: keyed_def)
  have "foldl (dedup_step Date) [] (map snd ?m) = map (\<lambda>a. (agent_key a, a)) (map snd ?m)"
    using foldl_fresh [OF d, of "[]" Date] by simp
  then show ?thesis by (simp add: deduplicateAgents_def comp_def)
qed

end
